theory Spec2Isabelle
  imports
    Complex_Main
    "HOL-Library.Char_ord"
    "HOL-Library.List_Lexorder"
    "HOL-Library.Multiset"
    "HOL-Library.AList"
begin

section \<open>The simulation data\<close>

text \<open>
  Both scripts (\<^verbatim>\<open>src/src/sim.py\<close>, the parallel file-based variant, and
  \<^verbatim>\<open>src/video/sim.py\<close>, the sequential in-memory variant) start from the object parsed
  from \<^verbatim>\<open>simulation_data.json\<close>. The model starts after \<^verbatim>\<open>json.load\<close>: the parsed
  object is a record with the six keys the scripts read, and the trajectory is a list of
  snapshots, each a list of \<open>[x, y, z]\<close> triples.
\<close>

type_synonym position = "real \<times> real \<times> real"
type_synonym snapshot = "position list"

record simulation_data =
  box_length :: real
  num_atoms :: int
  timestep :: real
  total_steps :: int
  snapshot_interval :: int
  trajectory :: "snapshot list"

text \<open>The exceptions that end a run. None of them is caught anywhere in the scripts.\<close>

datatype error =
  ValueError
  | IndexError
  | RenderError
  | EncodingError
  | FileNotFoundError
  | OSError

text \<open>
  \<^verbatim>\<open>np.array(simulation_data['trajectory'])\<close>: a list of snapshots of one common length
  becomes a dense array; snapshots of different lengths have no common shape and
  NumPy (1.24 and later) raises \<^verbatim>\<open>ValueError\<close>. When every snapshot is empty the array has
  shape \<open>(S, 0)\<close> and each row is one-dimensional.
\<close>

definition np_array :: "snapshot list \<Rightarrow> error + snapshot list" where
  "np_array traj =
     (if list_all (\<lambda>s. length s = length (hd traj)) traj then Inr traj else Inl ValueError)"

section \<open>String formatting\<close>

definition digit_char :: "nat \<Rightarrow> char" where
  "digit_char d = ''0123456789'' ! d"

fun str_nat :: "nat \<Rightarrow> string" where
  "str_nat n = (if n < 10 then [digit_char n] else str_nat (n div 10) @ [digit_char (n mod 10)])"

declare str_nat.simps [simp del]

text \<open>\<^verbatim>\<open>f'{z}'\<close> for a Python integer.\<close>

definition str_int :: "int \<Rightarrow> string" where
  "str_int z = (if z < 0 then ''-'' @ str_nat (nat (- z)) else str_nat (nat z))"

text \<open>\<^verbatim>\<open>f'{i:04d}'\<close> for an index \<open>i \<ge> 0\<close>: decimal digits, zero-padded on the left to width 4.\<close>

definition fmt_04d :: "nat \<Rightarrow> string" where
  "fmt_04d i = (let s = str_nat i in replicate (4 - length s) CHR ''0'' @ s)"

definition temp_dir :: string where
  "temp_dir = ''temp''"

definition os_path_join :: "string \<Rightarrow> string \<Rightarrow> string" where
  "os_path_join d f = d @ ''/'' @ f"

definition frame_name :: "nat \<Rightarrow> string" where
  "frame_name i = ''frame_'' @ fmt_04d i @ ''.png''"

definition frame_path_of :: "nat \<Rightarrow> string" where
  "frame_path_of i = os_path_join temp_dir (frame_name i)"

section \<open>The plotting context\<close>

text \<open>
  The matplotlib objects \<^verbatim>\<open>fig\<close> and \<^verbatim>\<open>ax\<close> are mutable; the model passes their
  state explicitly. An axes holds what the scripts set on it; a figure holds its canvas
  size in pixels (width, height), its single 3D axes, and whether \<^verbatim>\<open>tight_layout\<close>
  has adjusted it.
\<close>

record scatter3d =
  sc_xs :: "real list"
  sc_ys :: "real list"
  sc_zs :: "real list"
  sc_color :: string
  sc_marker :: string
  sc_label :: string

record axes3d =
  ax_xlim :: "real \<times> real"
  ax_ylim :: "real \<times> real"
  ax_zlim :: "real \<times> real"
  ax_xlabel :: string
  ax_ylabel :: string
  ax_zlabel :: string
  ax_title :: string
  ax_collections :: "scatter3d list"
  ax_legend :: "string list option"

record figure =
  fig_size :: "nat \<times> nat"
  fig_axes :: axes3d
  fig_tight :: bool

definition fresh_axes :: axes3d where
  "fresh_axes =
     \<lparr>ax_xlim = (0, 1), ax_ylim = (0, 1), ax_zlim = (0, 1),
      ax_xlabel = [], ax_ylabel = [], ax_zlabel = [], ax_title = [],
      ax_collections = [], ax_legend = None\<rparr>"

text \<open>
  The environment of a run: the canvas size \<^verbatim>\<open>plt.figure()\<close> gives a new figure (from
  the matplotlib configuration), and for which frame indices the plotting library fails
  while saving (resource exhaustion, a full disk).
\<close>

record environment =
  figsize :: "nat \<times> nat"
  render_fails :: "nat \<Rightarrow> bool"

text \<open>\<^verbatim>\<open>fig = plt.figure(); ax = fig.add_subplot(111, projection='3d')\<close>\<close>

definition plt_figure :: "environment \<Rightarrow> figure" where
  "plt_figure env = \<lparr>fig_size = figsize env, fig_axes = fresh_axes, fig_tight = False\<rparr>"

definition ax_clear :: "figure \<Rightarrow> figure" where
  "ax_clear fig = fig\<lparr>fig_axes := fresh_axes\<rparr>"

definition ax_set_xlim :: "real \<Rightarrow> real \<Rightarrow> figure \<Rightarrow> figure" where
  "ax_set_xlim lo hi fig = fig\<lparr>fig_axes := (fig_axes fig)\<lparr>ax_xlim := (lo, hi)\<rparr>\<rparr>"

definition ax_set_ylim :: "real \<Rightarrow> real \<Rightarrow> figure \<Rightarrow> figure" where
  "ax_set_ylim lo hi fig = fig\<lparr>fig_axes := (fig_axes fig)\<lparr>ax_ylim := (lo, hi)\<rparr>\<rparr>"

definition ax_set_zlim :: "real \<Rightarrow> real \<Rightarrow> figure \<Rightarrow> figure" where
  "ax_set_zlim lo hi fig = fig\<lparr>fig_axes := (fig_axes fig)\<lparr>ax_zlim := (lo, hi)\<rparr>\<rparr>"

definition ax_set_xlabel :: "string \<Rightarrow> figure \<Rightarrow> figure" where
  "ax_set_xlabel s fig = fig\<lparr>fig_axes := (fig_axes fig)\<lparr>ax_xlabel := s\<rparr>\<rparr>"

definition ax_set_ylabel :: "string \<Rightarrow> figure \<Rightarrow> figure" where
  "ax_set_ylabel s fig = fig\<lparr>fig_axes := (fig_axes fig)\<lparr>ax_ylabel := s\<rparr>\<rparr>"

definition ax_set_zlabel :: "string \<Rightarrow> figure \<Rightarrow> figure" where
  "ax_set_zlabel s fig = fig\<lparr>fig_axes := (fig_axes fig)\<lparr>ax_zlabel := s\<rparr>\<rparr>"

text \<open>\<^verbatim>\<open>ax.set_title\<close> and \<^verbatim>\<open>plt.title\<close> (the current axes is \<^verbatim>\<open>ax\<close>) set the same title.\<close>

definition plt_title :: "string \<Rightarrow> figure \<Rightarrow> figure" where
  "plt_title s fig = fig\<lparr>fig_axes := (fig_axes fig)\<lparr>ax_title := s\<rparr>\<rparr>"

text \<open>
  \<^verbatim>\<open>ax.scatter(positions[:, 0], positions[:, 1], positions[:, 2], c='b', marker='o',
  label='Argon Atoms')\<close> on a two-dimensional \<^verbatim>\<open>positions\<close>.
\<close>

definition ax_scatter :: "snapshot \<Rightarrow> figure \<Rightarrow> figure" where
  "ax_scatter positions fig =
     fig\<lparr>fig_axes := (fig_axes fig)\<lparr>ax_collections := ax_collections (fig_axes fig) @
       [\<lparr>sc_xs = map fst positions,
         sc_ys = map (fst \<circ> snd) positions,
         sc_zs = map (snd \<circ> snd) positions,
         sc_color = ''b'', sc_marker = ''o'', sc_label = ''Argon Atoms''\<rparr>]\<rparr>\<rparr>"

definition ax_legend_on :: "figure \<Rightarrow> figure" where
  "ax_legend_on fig =
     fig\<lparr>fig_axes := (fig_axes fig)\<lparr>ax_legend :=
            Some (map sc_label (ax_collections (fig_axes fig)))\<rparr>\<rparr>"

definition plt_tight_layout :: "figure \<Rightarrow> figure" where
  "plt_tight_layout fig = fig\<lparr>fig_tight := True\<rparr>"

section \<open>Images, the scratch directory and the video file\<close>

text \<open>
  A rasterised image is described by its array shape and by the figure state it was
  drawn from. The file system holds what the scripts touch: the scratch directory
  \<^verbatim>\<open>temp\<close> (absent, or a list of regular files by name, in the order \<^verbatim>\<open>os.listdir\<close>
  reports them) and the output file \<^verbatim>\<open>argon_simulation.mp4\<close>.
\<close>

record image =
  img_shape :: "nat \<times> nat \<times> nat"
  img_picture :: figure

record video =
  v_frames :: "image list"
  v_fps :: nat

record filesystem =
  scratch :: "(string \<times> image) list option"
  movie :: "video option"

text \<open>The name inside the scratch directory that a path denotes, if it denotes one.\<close>

definition entry_name :: "string \<Rightarrow> string option" where
  "entry_name p =
     (let n = length temp_dir + 1
      in if take n p = temp_dir @ ''/'' then Some (drop n p) else None)"

text \<open>\<^verbatim>\<open>os.makedirs(d, exist_ok=True)\<close>\<close>

definition os_makedirs :: "string \<Rightarrow> filesystem \<Rightarrow> filesystem" where
  "os_makedirs d fs =
     (if d = temp_dir \<and> scratch fs = None then fs\<lparr>scratch := Some []\<rparr> else fs)"

definition os_listdir :: "string \<Rightarrow> filesystem \<Rightarrow> error + string list" where
  "os_listdir d fs =
     (if d = temp_dir
      then (case scratch fs of None \<Rightarrow> Inl FileNotFoundError | Some es \<Rightarrow> Inr (map fst es))
      else Inl FileNotFoundError)"

definition os_remove :: "string \<Rightarrow> filesystem \<Rightarrow> error + filesystem" where
  "os_remove p fs =
     (case (entry_name p, scratch fs) of
        (Some n, Some es) \<Rightarrow>
          (if n \<in> fst ` set es then Inr (fs\<lparr>scratch := Some (AList.delete n es)\<rparr>)
           else Inl FileNotFoundError)
      | _ \<Rightarrow> Inl FileNotFoundError)"

definition os_rmdir :: "string \<Rightarrow> filesystem \<Rightarrow> error + filesystem" where
  "os_rmdir d fs =
     (if d = temp_dir
      then (case scratch fs of
              None \<Rightarrow> Inl FileNotFoundError
            | Some [] \<Rightarrow> Inr (fs\<lparr>scratch := None\<rparr>)
            | Some (e # es) \<Rightarrow> Inl OSError)
      else Inl FileNotFoundError)"

definition imread :: "string \<Rightarrow> filesystem \<Rightarrow> error + image" where
  "imread p fs =
     (case (entry_name p, scratch fs) of
        (Some n, Some es) \<Rightarrow>
          (case map_of es n of None \<Rightarrow> Inl FileNotFoundError | Some img \<Rightarrow> Inr img)
      | _ \<Rightarrow> Inl FileNotFoundError)"

text \<open>
  \<^verbatim>\<open>plt.savefig(path)\<close> rasterises the current figure to a PNG (an RGBA array of the
  canvas height and width), replacing a file of the same name. The flag says whether
  the library fails in this call.
\<close>

definition png_of :: "figure \<Rightarrow> image" where
  "png_of fig = \<lparr>img_shape = (snd (fig_size fig), fst (fig_size fig), 4), img_picture = fig\<rparr>"

definition plt_savefig :: "bool \<Rightarrow> string \<Rightarrow> figure \<Rightarrow> filesystem \<Rightarrow> error + filesystem" where
  "plt_savefig fails p fig fs =
     (if fails then Inl RenderError
      else (case (entry_name p, scratch fs) of
              (Some n, Some es) \<Rightarrow> Inr (fs\<lparr>scratch := Some (AList.update n (png_of fig) es)\<rparr>)
            | _ \<Rightarrow> Inl FileNotFoundError))"

section \<open>The frame renderer of the parallel variant\<close>

text \<open>
  \<^verbatim>\<open>process_frame\<close> of \<^verbatim>\<open>src/src/sim.py\<close>. It reads the module globals \<^verbatim>\<open>L\<close> and
  \<^verbatim>\<open>SNAPSHOT_INTERVAL\<close> (here the fields of the loaded data) and draws on the module
  globals \<^verbatim>\<open>fig\<close>/\<^verbatim>\<open>ax\<close> of the process it runs in, so the figure is an argument and a
  result. Slicing \<^verbatim>\<open>positions[:, 0]\<close> raises \<^verbatim>\<open>IndexError\<close> when \<^verbatim>\<open>positions\<close> is
  one-dimensional, which is the case exactly for an empty snapshot.
\<close>

definition process_frame ::
  "environment \<Rightarrow> simulation_data \<Rightarrow> nat \<times> snapshot \<Rightarrow> figure \<Rightarrow> filesystem
     \<Rightarrow> (error + string) \<times> figure \<times> filesystem" where
  "process_frame env g args fig fs =
     (let (i, positions) = args;
          frame_path = os_path_join temp_dir (frame_name i);
          fig1 = ax_clear fig;
          fig2 = ax_set_xlim 0 (box_length g) fig1;
          fig3 = ax_set_ylim 0 (box_length g) fig2;
          fig4 = ax_set_zlim 0 (box_length g) fig3
      in if positions = [] then (Inl IndexError, fig4, fs)
         else
           let fig5 = ax_scatter positions fig4;
               fig6 = ax_legend_on fig5;
               fig7 = plt_title (''Timestep '' @ str_int (int i * snapshot_interval g)) fig6;
               fig8 = plt_tight_layout fig7
           in (case plt_savefig (render_fails env i) frame_path fig8 fs of
                 Inl e \<Rightarrow> (Inl e, fig8, fs)
               | Inr fs' \<Rightarrow> (Inr frame_path, fig8, fs')))"

section \<open>The worker pool\<close>

text \<open>
  \<^verbatim>\<open>Pool().imap(process_frame, args)\<close>. Every worker process holds its own copy of the
  module globals, so each worker has a figure of its own, which lives across the tasks
  that worker runs; all workers write into the one file system. A run of the pool is
  described by the order in which the tasks complete (a list of task indices) and by
  the worker that runs each task. The parent receives each result tagged with its task
  index and hands them on in index order, whatever order they arrived in.
\<close>

record pool_state =
  ps_workers :: "nat \<Rightarrow> figure"
  ps_disk :: filesystem
  ps_done :: "(nat \<times> (error + string)) list"

definition run_task ::
  "environment \<Rightarrow> simulation_data \<Rightarrow> (nat \<Rightarrow> nat) \<Rightarrow> (nat \<times> snapshot) list
     \<Rightarrow> pool_state \<Rightarrow> nat \<Rightarrow> pool_state" where
  "run_task env g worker_of args st k =
     (if k < length args
      then (let w = worker_of k;
                (r, fig', fs') = process_frame env g (args ! k) (ps_workers st w) (ps_disk st)
            in st\<lparr>ps_workers := (ps_workers st)(w := fig'),
                  ps_disk := fs',
                  ps_done := ps_done st @ [(k, r)]\<rparr>)
      else st)"

definition pool_imap ::
  "environment \<Rightarrow> simulation_data \<Rightarrow> (nat \<Rightarrow> nat) \<Rightarrow> nat list \<Rightarrow> (nat \<times> snapshot) list
     \<Rightarrow> figure \<Rightarrow> filesystem \<Rightarrow> (error + string) list \<times> filesystem" where
  "pool_imap env g worker_of order args fig fs =
     (let st = foldl (run_task env g worker_of args)
                 \<lparr>ps_workers = (\<lambda>w. fig), ps_disk = fs, ps_done = []\<rparr> order
      in (map snd (sort_key fst (ps_done st)), ps_disk st))"

text \<open>A completion order of \<open>n\<close> tasks: every task index below \<open>n\<close>, once, in any order.\<close>

definition completion_order :: "nat \<Rightarrow> nat list \<Rightarrow> bool" where
  "completion_order n order \<longleftrightarrow> sort order = [0..<n]"

text \<open>
  \<^verbatim>\<open>list(...)\<close> over the iterator: the results in order, or the exception of the first
  task (in index order) that raised one.
\<close>

fun py_list :: "(error + 'a) list \<Rightarrow> error + 'a list" where
  "py_list [] = Inr []"
| "py_list (Inl e # rs) = Inl e"
| "py_list (Inr x # rs) = (case py_list rs of Inl e \<Rightarrow> Inl e | Inr xs \<Rightarrow> Inr (x # xs))"

text \<open>Lines 51 to 59 of \<^verbatim>\<open>src/src/sim.py\<close>: the figure, the argument list, the pool.\<close>

definition render_stage ::
  "environment \<Rightarrow> (nat \<Rightarrow> nat) \<Rightarrow> nat list \<Rightarrow> simulation_data \<Rightarrow> snapshot list \<Rightarrow> filesystem
     \<Rightarrow> (error + string list) \<times> filesystem" where
  "render_stage env worker_of order g traj fs =
     (let fig = plt_figure env;
          args = map (\<lambda>i. (i, traj ! i)) [0..<length traj];
          (results, fs') = pool_imap env g worker_of order args fig fs
      in (py_list results, fs'))"

section \<open>Video assembly\<close>

text \<open>
  \<^verbatim>\<open>ImageSequenceClip\<close> of moviepy. Given a list of arrays it takes them as they come;
  given a folder name it reads \<^verbatim>\<open>sorted(os.path.join(folder, f) for f in
  os.listdir(folder))\<close>, the paths in the order of Python's string comparison. In both
  cases it reads the size of \<^verbatim>\<open>sequence[0]\<close> (\<^verbatim>\<open>IndexError\<close> on an empty sequence) and
  raises when an image has another size; that exception is the encoding error here.
\<close>

definition clip_of :: "image list \<Rightarrow> nat \<Rightarrow> error + video" where
  "clip_of imgs fps =
     (case imgs of
        [] \<Rightarrow> Inl IndexError
      | im # _ \<Rightarrow>
          (if list_all (\<lambda>im'. img_shape im' = img_shape im) imgs
           then Inr \<lparr>v_frames = imgs, v_fps = fps\<rparr>
           else Inl EncodingError))"

fun imread_all :: "string list \<Rightarrow> filesystem \<Rightarrow> error + image list" where
  "imread_all [] fs = Inr []"
| "imread_all (p # ps) fs =
     (case imread p fs of
        Inl e \<Rightarrow> Inl e
      | Inr im \<Rightarrow> (case imread_all ps fs of Inl e \<Rightarrow> Inl e | Inr ims \<Rightarrow> Inr (im # ims)))"

definition clip_sequence :: "string \<Rightarrow> string list \<Rightarrow> string list" where
  "clip_sequence d names = sort (map (os_path_join d) names)"

definition ImageSequenceClip_dir :: "string \<Rightarrow> nat \<Rightarrow> filesystem \<Rightarrow> error + video" where
  "ImageSequenceClip_dir d fps fs =
     (case os_listdir d fs of
        Inl e \<Rightarrow> Inl e
      | Inr names \<Rightarrow>
          (case imread_all (clip_sequence d names) fs of
             Inl e \<Rightarrow> Inl e
           | Inr imgs \<Rightarrow> clip_of imgs fps))"

definition ImageSequenceClip_list :: "image list \<Rightarrow> nat \<Rightarrow> error + video" where
  "ImageSequenceClip_list frames fps = clip_of frames fps"

definition write_videofile :: "video \<Rightarrow> filesystem \<Rightarrow> filesystem" where
  "write_videofile clip fs = fs\<lparr>movie := Some clip\<rparr>"

section \<open>Cleanup\<close>

text \<open>
  \<^verbatim>\<open>for file in os.listdir(temp_dir): os.remove(os.path.join(temp_dir, file))\<close>, then
  \<^verbatim>\<open>os.rmdir(temp_dir)\<close>. An exception leaves the file system as it was when raised.
\<close>

fun remove_each :: "string list \<Rightarrow> filesystem \<Rightarrow> error option \<times> filesystem" where
  "remove_each [] fs = (None, fs)"
| "remove_each (file # files) fs =
     (case os_remove (os_path_join temp_dir file) fs of
        Inl e \<Rightarrow> (Some e, fs)
      | Inr fs' \<Rightarrow> remove_each files fs')"

definition cleanup :: "filesystem \<Rightarrow> error option \<times> filesystem" where
  "cleanup fs =
     (case os_listdir temp_dir fs of
        Inl e \<Rightarrow> (Some e, fs)
      | Inr files \<Rightarrow>
          (case remove_each files fs of
             (Some e, fs') \<Rightarrow> (Some e, fs')
           | (None, fs') \<Rightarrow>
               (case os_rmdir temp_dir fs' of
                  Inl e \<Rightarrow> (Some e, fs')
                | Inr fs'' \<Rightarrow> (None, fs''))))"

section \<open>The parallel script\<close>

text \<open>
  \<^verbatim>\<open>src/src/sim.py\<close> from line 36 on. The result is the uncaught exception, if any, and
  the file system the run leaves behind.
\<close>

definition main ::
  "environment \<Rightarrow> (nat \<Rightarrow> nat) \<Rightarrow> nat list \<Rightarrow> simulation_data \<Rightarrow> filesystem
     \<Rightarrow> error option \<times> filesystem" where
  "main env worker_of order g fs0 =
     (case np_array (trajectory g) of
        Inl e \<Rightarrow> (Some e, fs0)
      | Inr traj \<Rightarrow>
          (let fs1 = os_makedirs temp_dir fs0
           in (case render_stage env worker_of order g traj fs1 of
                 (Inl e, fs2) \<Rightarrow> (Some e, fs2)
               | (Inr frame_paths, fs2) \<Rightarrow>
                   (case ImageSequenceClip_dir temp_dir 10 fs2 of
                      Inl e \<Rightarrow> (Some e, fs2)
                    | Inr clip \<Rightarrow> cleanup (write_videofile clip fs2)))))"

section \<open>The sequential script\<close>

text \<open>
  \<^verbatim>\<open>src/video/sim.py\<close>: one figure, one loop, every frame taken from the canvas as an RGB
  array of shape (height, width, 3) and appended to \<^verbatim>\<open>frames\<close>.
\<close>

definition canvas_rgb :: "figure \<Rightarrow> image" where
  "canvas_rgb fig = \<lparr>img_shape = (snd (fig_size fig), fst (fig_size fig), 3), img_picture = fig\<rparr>"

fun render_loop ::
  "simulation_data \<Rightarrow> (nat \<times> snapshot) list \<Rightarrow> figure \<Rightarrow> image list
     \<Rightarrow> (error + image list) \<times> figure" where
  "render_loop g [] fig frames = (Inr frames, fig)"
| "render_loop g ((i, positions) # rest) fig frames =
     (let fig1 = ax_clear fig;
          fig2 = ax_set_xlim 0 (box_length g) fig1;
          fig3 = ax_set_ylim 0 (box_length g) fig2;
          fig4 = ax_set_zlim 0 (box_length g) fig3;
          fig5 = ax_set_xlabel ''X (angstrom)'' fig4;
          fig6 = ax_set_ylabel ''Y (angstrom)'' fig5;
          fig7 = ax_set_zlabel ''Z (angstrom)'' fig6
      in if positions = [] then (Inl IndexError, fig7)
         else
           let fig8 = ax_scatter positions fig7;
               fig9 = ax_legend_on fig8;
               fig10 = plt_title (''Timestep '' @ str_int (int i * snapshot_interval g)) fig9;
               fig11 = plt_tight_layout fig10
           in render_loop g rest fig11 (frames @ [canvas_rgb fig11]))"

definition video_figure :: "environment \<Rightarrow> simulation_data \<Rightarrow> figure" where
  "video_figure env g =
     (let fig = plt_figure env;
          fig1 = ax_set_xlim 0 (box_length g) fig;
          fig2 = ax_set_ylim 0 (box_length g) fig1;
          fig3 = ax_set_zlim 0 (box_length g) fig2;
          fig4 = ax_set_xlabel ''X (angstrom)'' fig3;
          fig5 = ax_set_ylabel ''Y (angstrom)'' fig4;
          fig6 = ax_set_zlabel ''Z (angstrom)'' fig5
      in plt_title ''Argon System Simulation'' fig6)"

definition video_frames :: "environment \<Rightarrow> simulation_data \<Rightarrow> snapshot list \<Rightarrow> error + image list" where
  "video_frames env g traj = fst (render_loop g (enumerate 0 traj) (video_figure env g) [])"

definition video_main :: "environment \<Rightarrow> simulation_data \<Rightarrow> filesystem \<Rightarrow> error option \<times> filesystem" where
  "video_main env g fs0 =
     (case np_array (trajectory g) of
        Inl e \<Rightarrow> (Some e, fs0)
      | Inr traj \<Rightarrow>
          (case video_frames env g traj of
             Inl e \<Rightarrow> (Some e, fs0)
           | Inr frames \<Rightarrow>
               (case ImageSequenceClip_list frames 10 of
                  Inl e \<Rightarrow> (Some e, fs0)
                | Inr clip \<Rightarrow> (None, write_videofile clip fs0))))"

section \<open>Auxiliary definitions for the statements\<close>

subsection \<open>The pictures, written out\<close>

text \<open>
  The figure state \<^verbatim>\<open>process_frame\<close> has drawn on a canvas of size \<open>sz\<close> when it
  reaches \<^verbatim>\<open>plt.savefig\<close> for snapshot \<open>i\<close>, and the PNG saved from it; and the figure
  state the loop body of the sequential script has set when it reaches
  \<^verbatim>\<open>fig.canvas.draw()\<close>, which has the axis labels as well.
\<close>

definition frame_figure :: "simulation_data \<Rightarrow> nat \<times> nat \<Rightarrow> nat \<Rightarrow> snapshot \<Rightarrow> figure" where
  "frame_figure g sz i positions =
     \<lparr>fig_size = sz,
      fig_axes =
        \<lparr>ax_xlim = (0, box_length g), ax_ylim = (0, box_length g), ax_zlim = (0, box_length g),
         ax_xlabel = [], ax_ylabel = [], ax_zlabel = [],
         ax_title = ''Timestep '' @ str_int (int i * snapshot_interval g),
         ax_collections =
           [\<lparr>sc_xs = map fst positions, sc_ys = map (fst \<circ> snd) positions,
             sc_zs = map (snd \<circ> snd) positions,
             sc_color = ''b'', sc_marker = ''o'', sc_label = ''Argon Atoms''\<rparr>],
         ax_legend = Some [''Argon Atoms'']\<rparr>,
      fig_tight = True\<rparr>"

definition frame_png :: "simulation_data \<Rightarrow> nat \<times> nat \<Rightarrow> nat \<times> snapshot \<Rightarrow> image" where
  "frame_png g sz arg = png_of (frame_figure g sz (fst arg) (snd arg))"

definition loop_figure :: "simulation_data \<Rightarrow> nat \<times> nat \<Rightarrow> nat \<Rightarrow> snapshot \<Rightarrow> figure" where
  "loop_figure g sz i positions =
     \<lparr>fig_size = sz,
      fig_axes =
        \<lparr>ax_xlim = (0, box_length g), ax_ylim = (0, box_length g), ax_zlim = (0, box_length g),
         ax_xlabel = ''X (angstrom)'', ax_ylabel = ''Y (angstrom)'', ax_zlabel = ''Z (angstrom)'',
         ax_title = ''Timestep '' @ str_int (int i * snapshot_interval g),
         ax_collections =
           [\<lparr>sc_xs = map fst positions, sc_ys = map (fst \<circ> snd) positions,
             sc_zs = map (snd \<circ> snd) positions,
             sc_color = ''b'', sc_marker = ''o'', sc_label = ''Argon Atoms''\<rparr>],
         ax_legend = Some [''Argon Atoms'']\<rparr>,
      fig_tight = True\<rparr>"

subsection \<open>One task of the pool\<close>

text \<open>
  Whether a task gets as far as writing its file, the value it hands back to the
  parent, the change it makes to the scratch directory, the state the pool starts
  from, and the argument list of line 55.
\<close>

definition task_ok :: "environment \<Rightarrow> nat \<times> snapshot \<Rightarrow> bool" where
  "task_ok env arg \<longleftrightarrow> snd arg \<noteq> [] \<and> \<not> render_fails env (fst arg)"

definition task_result :: "environment \<Rightarrow> nat \<times> snapshot \<Rightarrow> error + string" where
  "task_result env arg =
     (if snd arg = [] then Inl IndexError
      else if render_fails env (fst arg) then Inl RenderError
      else Inr (frame_path_of (fst arg)))"

definition write_frame ::
  "simulation_data \<Rightarrow> nat \<times> nat \<Rightarrow> nat \<times> snapshot \<Rightarrow> (string \<times> image) list \<Rightarrow> (string \<times> image) list" where
  "write_frame g sz arg es = AList.update (frame_name (fst arg)) (frame_png g sz arg) es"

definition pool_start :: "figure \<Rightarrow> filesystem \<Rightarrow> pool_state" where
  "pool_start fig fs = \<lparr>ps_workers = (\<lambda>w. fig), ps_disk = fs, ps_done = []\<rparr>"

definition frame_args :: "snapshot list \<Rightarrow> (nat \<times> snapshot) list" where
  "frame_args traj = map (\<lambda>i. (i, traj ! i)) [0..<length traj]"

subsection \<open>Reading decimal strings, and an order of indices\<close>

text \<open>The number a string of decimal digits denotes; it reads \<open>str_nat\<close> back.\<close>

definition digit_val :: "char \<Rightarrow> nat" where
  "digit_val c = of_char c - 48"

definition dec_val :: "string \<Rightarrow> nat" where
  "dec_val s = foldl (\<lambda>a c. 10 * a + digit_val c) 0 s"

text \<open>
  The indices \<open>0, \<dots>, b\<close> with \<open>b\<close> moved forward to position \<open>a\<close>; for 1001 and
  10000, the order in which the sorted file names list the frames of 10001 snapshots.
\<close>

definition moved_forward :: "nat \<Rightarrow> nat \<Rightarrow> nat list" where
  "moved_forward a b = [0..<a] @ [b] @ [a..<b]"

definition long_sequence :: "nat list" where
  "long_sequence = moved_forward 1001 10000"

subsection \<open>Concrete inputs\<close>

text \<open>
  The scenario of the specification (two snapshots of two atoms); an environment in
  which the plotting library never fails, and one in which saving frame 1 fails; a
  file system with neither scratch directory nor video.
\<close>

definition example_env :: environment where
  "example_env = \<lparr>figsize = (640, 480), render_fails = (\<lambda>i. False)\<rparr>"

definition failing_env :: environment where
  "failing_env = \<lparr>figsize = (640, 480), render_fails = (\<lambda>i. i = 1)\<rparr>"

definition example_data :: simulation_data where
  "example_data =
     \<lparr>box_length = 10, num_atoms = 2, timestep = 1 / 1000, total_steps = 20,
      snapshot_interval = 10,
      trajectory = [[(1, 1, 1), (2, 2, 2)], [(3, 3, 3), (4, 4, 4)]]\<rparr>"

definition empty_fs :: filesystem where
  "empty_fs = \<lparr>scratch = None, movie = None\<rparr>"

text \<open>
  A scratch directory left over from earlier work, with images of the size this
  environment renders, and one that holds an image of another size.
\<close>

definition leftover_image :: image where
  "leftover_image = \<lparr>img_shape = (480, 640, 4), img_picture = plt_figure example_env\<rparr>"

definition leftover_fs :: filesystem where
  "leftover_fs =
     \<lparr>scratch = Some [(''frame_0001.png'', leftover_image), (''old_plot.png'', leftover_image)],
      movie = None\<rparr>"

definition odd_image :: image where
  "odd_image = \<lparr>img_shape = (100, 100, 4), img_picture = plt_figure example_env\<rparr>"

definition stale_fs :: filesystem where
  "stale_fs = \<lparr>scratch = Some [(''old_plot.png'', odd_image)], movie = None\<rparr>"

text \<open>
  A trajectory of 10001 snapshots of one atom, a trajectory whose snapshots hold two
  positions while \<open>num_atoms\<close> says five, and one whose snapshots differ in length.
\<close>

definition long_data :: simulation_data where
  "long_data =
     \<lparr>box_length = 10, num_atoms = 1, timestep = 1 / 1000, total_steps = 10000,
      snapshot_interval = 1, trajectory = replicate 10001 [(0, 0, 0)]\<rparr>"



section \<open>Basic facts\<close>


lemma entry_name_join [simp]: "entry_name (os_path_join temp_dir n) = Some n"
  by (simp add: entry_name_def os_path_join_def temp_dir_def)

lemma remove_each_listed:
  "distinct names \<Longrightarrow> set names \<subseteq> fst ` set es \<Longrightarrow>
   remove_each names (fs\<lparr>scratch := Some es\<rparr>) =
     (None, fs\<lparr>scratch := Some (filter (\<lambda>e. fst e \<notin> set names) es)\<rparr>)"
proof (induction names arbitrary: es)
  case Nil
  then show ?case by simp
next
  case (Cons n names)
  have "fst ` set (AList.delete n es) = fst ` set es - {n}"
    by (force simp: AList.delete_eq image_iff)
  then have sub: "set names \<subseteq> fst ` set (AList.delete n es)"
    using Cons.prems by auto
  have flt: "filter (\<lambda>e. fst e \<notin> set names) (AList.delete n es) =
             filter (\<lambda>e. fst e \<notin> set (n # names)) es"
    by (auto simp: AList.delete_eq intro: filter_cong)
  from Cons.prems have "n \<in> fst ` set es" by simp
  then show ?case
    using Cons.IH [OF _ sub] Cons.prems(1) flt
    by (simp add: os_remove_def)
qed

lemma remove_each_all:
  "distinct (map fst es) \<Longrightarrow>
   remove_each (map fst es) (fs\<lparr>scratch := Some es\<rparr>) = (None, fs\<lparr>scratch := Some []\<rparr>)"
  using remove_each_listed [of "map fst es" es fs]
  by simp

lemma cleanup_present:
  "distinct (map fst es) \<Longrightarrow>
   cleanup (fs\<lparr>scratch := Some es\<rparr>) = (None, fs\<lparr>scratch := None\<rparr>)"
  by (simp add: cleanup_def os_listdir_def remove_each_all os_rmdir_def)

lemma cleanup_absent:
  "scratch fs = None \<Longrightarrow> cleanup fs = (Some FileNotFoundError, fs)"
  by (simp add: cleanup_def os_listdir_def)



lemmas plot_defs =
  ax_clear_def ax_set_xlim_def ax_set_ylim_def ax_set_zlim_def ax_set_xlabel_def
  ax_set_ylabel_def ax_set_zlabel_def plt_title_def ax_scatter_def ax_legend_on_def
  plt_tight_layout_def fresh_axes_def

lemma cleanup_None_scratch:
  "fst (cleanup fs) = None \<Longrightarrow> scratch (snd (cleanup fs)) = None"
  by (auto simp: cleanup_def os_rmdir_def split: sum.splits option.splits prod.splits list.splits if_splits)

subsection \<open>The sequential loop\<close>

lemma render_loop_Inr:
  "fst (render_loop g args fig frames) = Inr out \<Longrightarrow>
   out = frames @ map (\<lambda>(i, p). canvas_rgb (loop_figure g (fig_size fig) i p)) args"
proof (induction args arbitrary: fig frames)
  case Nil
  then show ?case by simp
next
  case (Cons a args)
  obtain i p where a: "a = (i, p)" by (cases a)
  show ?case
  proof (cases "p = []")
    case True
    with Cons.prems a show ?thesis by (simp add: Let_def)
  next
    case False
    define fig' where "fig' = plt_tight_layout (plt_title (''Timestep '' @ str_int (int i * snapshot_interval g))
      (ax_legend_on (ax_scatter p (ax_set_zlabel ''Z (angstrom)'' (ax_set_ylabel ''Y (angstrom)''
      (ax_set_xlabel ''X (angstrom)'' (ax_set_zlim 0 (box_length g) (ax_set_ylim 0 (box_length g)
      (ax_set_xlim 0 (box_length g) (ax_clear fig))))))))))"
    have eq: "fig' = loop_figure g (fig_size fig) i p"
      unfolding fig'_def by (cases fig) (simp add: plot_defs loop_figure_def)
    have "fst (render_loop g args fig' (frames @ [canvas_rgb fig'])) = Inr out"
      using Cons.prems False unfolding a fig'_def by (simp add: Let_def)
    from Cons.IH [OF this] show ?thesis
      unfolding a by (simp add: eq loop_figure_def)
  qed
qed

lemma render_loop_Inl:
  "fst (render_loop g args fig frames) = Inl e \<Longrightarrow> e = IndexError"
proof (induction args arbitrary: fig frames)
  case Nil
  then show ?case by simp
next
  case (Cons a args)
  obtain i p where a: "a = (i, p)" by (cases a)
  show ?case
  proof (cases "p = []")
    case True
    with Cons.prems a show ?thesis by (simp add: Let_def)
  next
    case False
    with Cons.prems a show ?thesis by (auto simp: Let_def dest: Cons.IH)
  qed
qed

lemma video_frames_Inr:
  assumes "video_frames env g traj = Inr frames"
  shows "frames = map (\<lambda>(i, p). canvas_rgb (loop_figure g (figsize env) i p)) (enumerate 0 traj)"
proof -
  have "fig_size (video_figure env g) = figsize env"
    by (simp add: video_figure_def plot_defs plt_figure_def Let_def)
  with render_loop_Inr [of g "enumerate 0 traj" "video_figure env g" "[]" frames] assms
  show ?thesis by (simp add: video_frames_def)
qed

lemma clip_of_same_shape:
  "list_all (\<lambda>im. img_shape im = s) imgs \<Longrightarrow> clip_of imgs fps \<noteq> Inl EncodingError"
  by (cases imgs) (auto simp: clip_of_def list_all_iff)

section \<open>Frame names: injective, and ordered like the indices below 10000\<close>

lemma digit_cases:
  "d < 10 \<Longrightarrow> d = 0 \<or> d = 1 \<or> d = 2 \<or> d = 3 \<or> d = 4 \<or> d = 5 \<or> d = 6 \<or> d = 7 \<or> d = 8 \<or> d = (9::nat)"
  by arith

lemma of_char_digit_char: "d < 10 \<Longrightarrow> of_char (digit_char d) = (48 + d :: nat)"
  using digit_cases [of d] by (auto simp: digit_char_def)

lemma digit_val_digit_char [simp]: "d < 10 \<Longrightarrow> digit_val (digit_char d) = d"
  by (simp add: digit_val_def of_char_digit_char)

lemma digit_char_less: "a < 10 \<Longrightarrow> b < 10 \<Longrightarrow> (digit_char a < digit_char b) = (a < b)"
  by (simp add: less_char_def of_char_digit_char)

lemma digit_char_eq: "a < 10 \<Longrightarrow> b < 10 \<Longrightarrow> (digit_char a = digit_char b) = (a = b)"
  by (metis digit_val_digit_char)

lemma dec_val_snoc: "dec_val (s @ [c]) = 10 * dec_val s + digit_val c"
  by (simp add: dec_val_def)

lemma dec_val_str_nat: "dec_val (str_nat n) = n"
proof (induction n rule: str_nat.induct)
  case (1 n)
  show ?case
  proof (cases "n < 10")
    case True
    then show ?thesis by (simp add: str_nat.simps [of n] dec_val_def)
  next
    case False
    with 1 show ?thesis by (simp add: str_nat.simps [of n] dec_val_snoc)
  qed
qed

lemma dec_val_zeros: "dec_val (replicate k CHR ''0'' @ s) = dec_val s"
proof -
  have "foldl (\<lambda>a c. 10 * a + digit_val c) 0 (replicate k CHR ''0'') = 0"
    by (induction k) (simp_all add: digit_val_def)
  then show ?thesis by (simp add: dec_val_def)
qed

lemma dec_val_fmt_04d: "dec_val (fmt_04d i) = i"
  by (simp add: fmt_04d_def Let_def dec_val_zeros dec_val_str_nat)

lemma frame_name_inj: "frame_name i = frame_name j \<Longrightarrow> i = j"
proof -
  assume "frame_name i = frame_name j"
  then have "fmt_04d i = fmt_04d j" by (simp add: frame_name_def)
  then have "dec_val (fmt_04d i) = dec_val (fmt_04d j)" by simp
  then show "i = j" by (simp add: dec_val_fmt_04d)
qed

lemma frame_path_of_inj: "frame_path_of i = frame_path_of j \<Longrightarrow> i = j"
  by (rule frame_name_inj) (simp add: frame_path_of_def os_path_join_def)

lemma replicate_small:
  "replicate 3 c = [c, c, c]" "replicate 2 c = [c, c]"
  by (simp_all add: numeral_3_eq_3 numeral_2_eq_2)

lemma str_nat_small: "i < 10 \<Longrightarrow> str_nat i = [digit_char i]"
  by (simp add: str_nat.simps [of i])

lemma str_nat_step: "\<not> i < 10 \<Longrightarrow> str_nat i = str_nat (i div 10) @ [digit_char (i mod 10)]"
  by (simp add: str_nat.simps [of i])

lemma div_10_10: "i div 10 div 10 = i div (100::nat)" "i div 100 div 10 = i div (1000::nat)"
  by (simp_all add: div_mult2_eq [symmetric])

lemma fmt_04d_digits:
  assumes "i < 10000"
  shows "fmt_04d i = [digit_char (i div 1000), digit_char (i div 100 mod 10),
                      digit_char (i div 10 mod 10), digit_char (i mod 10)]"
proof -
  have z: "digit_char 0 = CHR ''0''" by (simp add: digit_char_def)
  show ?thesis
  proof (cases "i < 10")
    case True
    then have d: "i div 1000 = 0" "i div 100 = 0" "i div 10 = 0" "i mod 10 = i" by simp_all
    show ?thesis by (simp add: fmt_04d_def str_nat_small [OF True] d z replicate_small)
  next
    case n1: False
    show ?thesis
    proof (cases "i < 100")
      case True
      with n1 have a: "i div 10 < 10" by arith
      from True have d: "i div 1000 = 0" "i div 100 = 0" by simp_all
      from a have e: "i div 10 mod 10 = i div 10" by simp
      show ?thesis
        by (simp add: fmt_04d_def str_nat_step [OF n1] str_nat_small [OF a] d e z replicate_small)
    next
      case n2: False
      then have n2': "\<not> i div 10 < 10" by arith
      show ?thesis
      proof (cases "i < 1000")
        case True
        with n2 have a: "i div 100 < 10" by arith
        from True have d: "i div 1000 = 0" by simp
        from a have e: "i div 100 mod 10 = i div 100" by simp
        show ?thesis
          by (simp add: fmt_04d_def str_nat_step [OF n1] str_nat_step [OF n2'] div_10_10
              str_nat_small [OF a] d e z)
      next
        case n3: False
        then have n3': "\<not> i div 100 < 10" by arith
        from assms have a: "i div 1000 < 10" by arith
        show ?thesis
          using str_nat_step [OF n3']
          by (simp add: fmt_04d_def str_nat_step [OF n1] str_nat_step [OF n2'] div_10_10
              str_nat_small [OF a])
      qed
    qed
  qed
qed

lemma lex_10:
  fixes qi ri qj rj :: nat
  assumes "ri < 10" "rj < 10"
  shows "10 * qi + ri < 10 * qj + rj \<longleftrightarrow> qi < qj \<or> (qi = qj \<and> ri < rj)"
  using assms by auto

lemma less_div_mod_10:
  "(i::nat) < j \<longleftrightarrow> i div 10 < j div 10 \<or> (i div 10 = j div 10 \<and> i mod 10 < j mod 10)"
proof -
  have "i < j \<longleftrightarrow> 10 * (i div 10) + i mod 10 < 10 * (j div 10) + j mod 10" by simp
  also have "\<dots> \<longleftrightarrow> i div 10 < j div 10 \<or> (i div 10 = j div 10 \<and> i mod 10 < j mod 10)"
    by (rule lex_10) simp_all
  finally show ?thesis .
qed

lemma eq_div_mod_10:
  "(i::nat) = j \<longleftrightarrow> i div 10 = j div 10 \<and> i mod 10 = j mod 10"
proof
  assume "i = j"
  then show "i div 10 = j div 10 \<and> i mod 10 = j mod 10" by simp
next
  assume a: "i div 10 = j div 10 \<and> i mod 10 = j mod 10"
  have "i = 10 * (i div 10) + i mod 10" by simp
  also have "\<dots> = 10 * (j div 10) + j mod 10" using a by simp
  also have "\<dots> = j" by simp
  finally show "i = j" .
qed

lemma fmt_04d_mono:
  assumes "i < j" "j < 10000"
  shows "fmt_04d i < fmt_04d j"
proof -
  from assms have i: "i < 10000" by simp
  have d: "i div 1000 < 10" "j div 1000 < 10" using i assms(2) by arith+
  have L0: "i < j \<longleftrightarrow> i div 10 < j div 10 \<or> (i div 10 = j div 10 \<and> i mod 10 < j mod 10)"
    by (rule less_div_mod_10)
  have L1: "i div 10 < j div 10 \<longleftrightarrow>
      i div 100 < j div 100 \<or> (i div 100 = j div 100 \<and> i div 10 mod 10 < j div 10 mod 10)"
    using less_div_mod_10 [of "i div 10" "j div 10"] by (simp only: div_10_10)
  have E1: "i div 10 = j div 10 \<longleftrightarrow> i div 100 = j div 100 \<and> i div 10 mod 10 = j div 10 mod 10"
    using eq_div_mod_10 [of "i div 10" "j div 10"] by (simp only: div_10_10)
  have L2: "i div 100 < j div 100 \<longleftrightarrow>
      i div 1000 < j div 1000 \<or> (i div 1000 = j div 1000 \<and> i div 100 mod 10 < j div 100 mod 10)"
    using less_div_mod_10 [of "i div 100" "j div 100"] by (simp only: div_10_10)
  have E2: "i div 100 = j div 100 \<longleftrightarrow> i div 1000 = j div 1000 \<and> i div 100 mod 10 = j div 100 mod 10"
    using eq_div_mod_10 [of "i div 100" "j div 100"] by (simp only: div_10_10)
  have "i div 1000 < j div 1000 \<or> i div 1000 = j div 1000 \<and>
        (i div 100 mod 10 < j div 100 mod 10 \<or> i div 100 mod 10 = j div 100 mod 10 \<and>
          (i div 10 mod 10 < j div 10 mod 10 \<or> i div 10 mod 10 = j div 10 mod 10 \<and>
             i mod 10 < j mod 10))"
    using assms(1) L0 L1 E1 L2 E2 by blast
  then show ?thesis
    unfolding fmt_04d_digits [OF i] fmt_04d_digits [OF assms(2)]
    using d by (simp add: digit_char_less digit_char_eq)
qed

lemma frame_path_of_mono:
  assumes "i < j" "j < 10000"
  shows "frame_path_of i < frame_path_of j"
proof -
  have "length (fmt_04d i) = length (fmt_04d j)"
    using assms by (simp add: fmt_04d_digits)
  with fmt_04d_mono [OF assms] have "fmt_04d i @ ''.png'' < fmt_04d j @ ''.png''"
    unfolding list_less_def by (simp add: lexord_sufI)
  then show ?thesis
    by (simp add: frame_path_of_def frame_name_def os_path_join_def temp_dir_def)
qed

lemma frame_path_of_1001: "frame_path_of 1001 = ''temp/frame_1001.png''"
  by (simp add: frame_path_of_def frame_name_def os_path_join_def temp_dir_def fmt_04d_digits digit_char_def)
lemma frame_path_of_1000: "frame_path_of 1000 = ''temp/frame_1000.png''"
  by (simp add: frame_path_of_def frame_name_def os_path_join_def temp_dir_def fmt_04d_digits digit_char_def)
lemma str_nat_10000: "str_nat 10000 = ''10000''"
  by (simp add: str_nat.simps digit_char_def)
lemma frame_path_of_10000: "frame_path_of 10000 = ''temp/frame_10000.png''"
  by (simp add: frame_path_of_def frame_name_def os_path_join_def temp_dir_def fmt_04d_def str_nat_10000)

lemma frame_path_10000_after: "i \<le> 1000 \<Longrightarrow> frame_path_of i < frame_path_of 10000"
proof -
  assume "i \<le> 1000"
  then have "frame_path_of i \<le> frame_path_of 1000"
    using frame_path_of_mono [of i 1000] by (cases "i = 1000") auto
  also have "frame_path_of 1000 < frame_path_of 10000"
    by (simp add: frame_path_of_1000 frame_path_of_10000)
  finally show ?thesis .
qed

lemma frame_path_10000_before: "1001 \<le> j \<Longrightarrow> j < 10000 \<Longrightarrow> frame_path_of 10000 < frame_path_of j"
proof -
  assume j: "1001 \<le> j" "j < 10000"
  have "frame_path_of 10000 < frame_path_of 1001"
    by (simp add: frame_path_of_1001 frame_path_of_10000)
  also have "frame_path_of 1001 \<le> frame_path_of j"
    using frame_path_of_mono [of 1001 j] j by (cases "j = 1001") auto
  finally show ?thesis .
qed

section \<open>The pool: results in index order, files by name\<close>


lemma process_frame_fst:
  "scratch fs \<noteq> None \<Longrightarrow> fst (process_frame env g arg fig fs) = task_result env arg"
  by (cases arg)
     (auto simp: process_frame_def task_result_def Let_def plt_savefig_def frame_path_of_def
       split: option.splits)

lemma process_frame_size:
  "fig_size (fst (snd (process_frame env g arg fig fs))) = fig_size fig"
  by (cases arg)
     (auto simp: process_frame_def Let_def plot_defs split: sum.splits)

lemma process_frame_disk:
  "scratch fs = Some es \<Longrightarrow>
   snd (snd (process_frame env g arg fig fs)) =
     (if task_ok env arg then fs\<lparr>scratch := Some (write_frame g (fig_size fig) arg es)\<rparr> else fs)"
  by (cases arg, cases fig)
     (auto simp: process_frame_def Let_def plt_savefig_def task_ok_def write_frame_def
       frame_png_def frame_figure_def plot_defs)
lemma pool_run:
  assumes "scratch fs = Some es"
  shows
    "ps_done (foldl (run_task env g wo args) (pool_start fig fs) order) =
       map (\<lambda>k. (k, task_result env (args ! k))) (filter (\<lambda>k. k < length args) order) \<and>
     (\<forall>w. fig_size (ps_workers (foldl (run_task env g wo args) (pool_start fig fs) order) w) = fig_size fig) \<and>
     ps_disk (foldl (run_task env g wo args) (pool_start fig fs) order) =
       fs\<lparr>scratch := Some (fold (\<lambda>k. write_frame g (fig_size fig) (args ! k))
               (filter (\<lambda>k. k < length args \<and> task_ok env (args ! k)) order) es)\<rparr>"
proof (induction order rule: rev_induct)
  case Nil
  show ?case using assms by (simp add: pool_start_def)
next
  case (snoc k order)
  define st where "st = foldl (run_task env g wo args) (pool_start fig fs) order"
  define es' where "es' = fold (\<lambda>k. write_frame g (fig_size fig) (args ! k))
               (filter (\<lambda>k. k < length args \<and> task_ok env (args ! k)) order) es"
  from snoc have
    d: "ps_done st = map (\<lambda>k. (k, task_result env (args ! k))) (filter (\<lambda>k. k < length args) order)"
    and w: "\<And>w. fig_size (ps_workers st w) = fig_size fig"
    and f: "ps_disk st = fs\<lparr>scratch := Some es'\<rparr>"
    unfolding st_def es'_def by simp_all
  have sc: "scratch (ps_disk st) = Some es'" using f by simp
  have step: "foldl (run_task env g wo args) (pool_start fig fs) (order @ [k]) =
      run_task env g wo args st k"
    by (simp add: st_def)
  show ?case
  proof (cases "k < length args")
    case False
    then show ?thesis
      unfolding step using d w f by (simp add: run_task_def es'_def)
  next
    case True
    obtain r fig' fs' where pf: "process_frame env g (args ! k) (ps_workers st (wo k)) (ps_disk st) = (r, fig', fs')"
      by (cases "process_frame env g (args ! k) (ps_workers st (wo k)) (ps_disk st)")
    have r: "r = task_result env (args ! k)"
      using process_frame_fst [of "ps_disk st" env g "args ! k" "ps_workers st (wo k)"] sc pf by simp
    have sz: "fig_size fig' = fig_size fig"
      using process_frame_size [of env g "args ! k" "ps_workers st (wo k)" "ps_disk st"] pf w by simp
    have fs': "fs' = (if task_ok env (args ! k)
                      then fs\<lparr>scratch := Some (write_frame g (fig_size fig) (args ! k) es')\<rparr>
                      else fs\<lparr>scratch := Some es'\<rparr>)"
      using process_frame_disk [OF sc, of env g "args ! k" "ps_workers st (wo k)"] pf w f by simp
    have rt: "run_task env g wo args st k =
        st\<lparr>ps_workers := (ps_workers st)(wo k := fig'), ps_disk := fs', ps_done := ps_done st @ [(k, r)]\<rparr>"
      using True pf by (simp add: run_task_def Let_def)
    show ?thesis
      unfolding step rt using True d w sz r fs' by (simp add: es'_def)
  qed
qed
lemma fold_update_other:
  "name \<notin> n ` set ks \<Longrightarrow>
   map_of (fold (\<lambda>k. AList.update (n k) (v k)) ks es) name = map_of es name"
  by (induction ks arbitrary: es) (auto simp: update_conv')

lemma fold_update_same:
  "inj_on n (set ks) \<Longrightarrow> k \<in> set ks \<Longrightarrow>
   map_of (fold (\<lambda>k. AList.update (n k) (v k)) ks es) (n k) = Some (v k)"
proof (induction ks arbitrary: es)
  case Nil
  then show ?case by simp
next
  case (Cons a ks)
  show ?case
  proof (cases "k \<in> set ks")
    case True
    with Cons show ?thesis by simp
  next
    case False
    with Cons.prems have ka: "k = a" by simp
    from Cons.prems(1) False ka have "n a \<notin> n ` set ks" by (auto simp: inj_on_def)
    then show ?thesis
      unfolding ka by (simp add: fold_update_other update_conv')
  qed
qed

lemma fold_update_keys:
  "fst ` set (fold (\<lambda>k. AList.update (n k) (v k)) ks es) = fst ` set es \<union> n ` set ks"
  by (induction ks arbitrary: es) (auto simp: dom_update)

lemma fold_update_distinct:
  "distinct (map fst es) \<Longrightarrow> distinct (map fst (fold (\<lambda>k. AList.update (n k) (v k)) ks es))"
  by (induction ks arbitrary: es) (auto simp: distinct_update)

lemma insort_key_tagged:
  "insort_key fst (k, r k) (map (\<lambda>k. (k, r k)) ys) = map (\<lambda>k. (k, r k)) (insort k ys)"
  by (induction ys) auto

lemma sort_key_tagged:
  "sort_key fst (map (\<lambda>k. (k, r k)) xs) = map (\<lambda>k. (k, r k)) (sort xs)"
  by (induction xs) (auto simp: insort_key_tagged)

lemma completion_order_set: "completion_order n order \<Longrightarrow> set order = {0..<n}"
proof -
  assume "completion_order n order"
  then have "set (sort order) = set [0..<n]" by (simp add: completion_order_def)
  then show ?thesis by simp
qed

lemma completion_order_mset: "completion_order n order \<Longrightarrow> mset order = mset [0..<n]"
proof -
  assume "completion_order n order"
  then have "mset (sort order) = mset [0..<n]" by (simp add: completion_order_def)
  then show ?thesis by simp
qed

lemma completion_order_distinct: "completion_order n order \<Longrightarrow> distinct order"
proof -
  assume "completion_order n order"
  then have "distinct (sort order)" by (simp add: completion_order_def)
  then show ?thesis by simp
qed

lemma py_list_Inr: "py_list (map Inr xs) = Inr xs"
  by (induction xs) auto

lemma py_list_all_ok:
  "list_all (\<lambda>x. \<not> isl (f x)) xs \<Longrightarrow> py_list (map f xs) = Inr (map (\<lambda>x. projr (f x)) xs)"
proof (induction xs)
  case Nil
  then show ?case by simp
next
  case (Cons a xs)
  then show ?case by (cases "f a") auto
qed

lemma py_list_some_error:
  "x \<in> set rs \<Longrightarrow> isl x \<Longrightarrow> \<exists>e. py_list rs = Inl e \<and> Inl e \<in> set rs"
proof (induction rs)
  case Nil
  then show ?case by simp
next
  case (Cons a rs)
  show ?case
  proof (cases a)
    case (Inl e)
    then show ?thesis by simp
  next
    case (Inr p)
    with Cons.prems have "x \<in> set rs" by auto
    from Cons.IH [OF this Cons.prems(2)] Inr show ?thesis by auto
  qed
qed

lemma pool_imap_results:
  assumes "scratch fs = Some es" "completion_order (length args) order"
  shows "fst (pool_imap env g wo order args fig fs) = map (task_result env) args"
proof -
  have flt: "filter (\<lambda>k. k < length args) order = order"
    using completion_order_set [OF assms(2)] by (auto simp: filter_id_conv)
  have "fst (pool_imap env g wo order args fig fs) =
      map snd (sort_key fst (map (\<lambda>k. (k, task_result env (args ! k))) order))"
    using pool_run [OF assms(1), of env g wo args fig order]
    by (simp add: pool_imap_def Let_def pool_start_def flt)
  also have "\<dots> = map (\<lambda>k. task_result env (args ! k)) [0..<length args]"
    using assms(2) by (simp add: sort_key_tagged completion_order_def comp_def)
  also have "\<dots> = map (task_result env) args"
    by (rule nth_equalityI) simp_all
  finally show ?thesis .
qed

lemma pool_imap_disk:
  assumes "scratch fs = Some es"
  shows "snd (pool_imap env g wo order args fig fs) =
     fs\<lparr>scratch := Some (fold (\<lambda>k. write_frame g (fig_size fig) (args ! k))
               (filter (\<lambda>k. k < length args \<and> task_ok env (args ! k)) order) es)\<rparr>"
  using pool_run [OF assms, of env g wo args fig order]
  by (simp add: pool_imap_def Let_def pool_start_def)
lemma frame_args_simps [simp]:
  "length (frame_args traj) = length traj"
  "i < length traj \<Longrightarrow> frame_args traj ! i = (i, traj ! i)"
  by (simp_all add: frame_args_def)

lemma filter_completion:
  "completion_order n order \<Longrightarrow> filter (\<lambda>k. k < n \<and> P k) order = filter P order"
  using completion_order_set [of n order] by (auto intro: filter_cong)

lemma render_stage_eq:
  assumes "scratch fs = Some es" "completion_order (length traj) order"
  shows "render_stage env wo order g traj fs =
     (py_list (map (task_result env) (frame_args traj)),
      fs\<lparr>scratch := Some (fold (\<lambda>k. write_frame g (figsize env) (frame_args traj ! k))
               (filter (\<lambda>k. task_ok env (frame_args traj ! k)) order) es)\<rparr>)"
proof -
  have co: "completion_order (length (frame_args traj)) order" using assms(2) by simp
  have sz: "fig_size (plt_figure env) = figsize env" by (simp add: plt_figure_def)
  have "render_stage env wo order g traj fs =
      (py_list (fst (pool_imap env g wo order (frame_args traj) (plt_figure env) fs)),
       snd (pool_imap env g wo order (frame_args traj) (plt_figure env) fs))"
    by (simp add: render_stage_def Let_def frame_args_def split: prod.splits)
  then show ?thesis
    using pool_imap_results [OF assms(1) co, of env g wo "plt_figure env"]
      pool_imap_disk [OF assms(1), of env g wo order "frame_args traj" "plt_figure env"]
      filter_completion [OF assms(2), of "\<lambda>k. task_ok env (frame_args traj ! k)"]
    by (simp add: sz)
qed

lemma os_makedirs_scratch:
  "\<exists>es. scratch (os_makedirs temp_dir fs) = Some es \<and> (scratch fs = None \<longrightarrow> es = []) \<and>
        (\<forall>es0. scratch fs = Some es0 \<longrightarrow> es = es0)"
  by (cases "scratch fs") (auto simp: os_makedirs_def)

lemma os_makedirs_movie [simp]: "movie (os_makedirs d fs) = movie fs"
  by (simp add: os_makedirs_def)

lemma frame_name_args_inj:
  "set ks \<subseteq> {0..<length traj} \<Longrightarrow> inj_on (\<lambda>k. frame_name (fst (frame_args traj ! k))) (set ks)"
proof (rule inj_onI)
  fix x y
  assume s: "set ks \<subseteq> {0..<length traj}" and x: "x \<in> set ks" and y: "y \<in> set ks"
    and e: "frame_name (fst (frame_args traj ! x)) = frame_name (fst (frame_args traj ! y))"
  from s x y have "x < length traj" "y < length traj" by auto
  with e have "frame_name x = frame_name y" by simp
  then show "x = y" by (rule frame_name_inj)
qed

lemma imread_written:
  assumes "k \<in> set ks" "set ks \<subseteq> {0..<length traj}"
  shows "imread (frame_path_of k)
           (fs\<lparr>scratch := Some (fold (\<lambda>k. write_frame g sz (frame_args traj ! k)) ks es)\<rparr>) =
         Inr (frame_png g sz (k, traj ! k))"
proof -
  from assms have k: "k < length traj" by auto
  have "map_of (fold (\<lambda>k. AList.update (frame_name (fst (frame_args traj ! k)))
                     (frame_png g sz (frame_args traj ! k))) ks es)
          (frame_name (fst (frame_args traj ! k))) = Some (frame_png g sz (frame_args traj ! k))"
    by (rule fold_update_same [OF frame_name_args_inj [OF assms(2)] assms(1)])
  then have "map_of (fold (\<lambda>k. write_frame g sz (frame_args traj ! k)) ks es) (frame_name k) =
      Some (frame_png g sz (k, traj ! k))"
    using k by (simp add: write_frame_def [abs_def])
  then show ?thesis
    by (simp add: imread_def frame_path_of_def)
qed
lemma np_array_Inr: "np_array traj = Inr t \<Longrightarrow> t = traj"
  by (auto simp: np_array_def split: if_splits)

lemma np_array_cases: "np_array traj = Inr traj \<or> np_array traj = Inl ValueError"
  by (simp add: np_array_def)

lemma task_result_ok: "task_ok env arg \<Longrightarrow> task_result env arg = Inr (frame_path_of (fst arg))"
  by (simp add: task_ok_def task_result_def)

lemma task_result_fail:
  "\<not> task_ok env arg \<Longrightarrow> task_result env arg = Inl IndexError \<or> task_result env arg = Inl RenderError"
  by (auto simp: task_ok_def task_result_def)

lemma task_result_Inl:
  "task_result env arg = Inl e \<Longrightarrow> \<not> task_ok env arg \<and> (e = IndexError \<or> e = RenderError)"
  by (auto simp: task_ok_def task_result_def split: if_splits)

lemma py_list_task_results_ok:
  assumes "\<forall>i<length traj. task_ok env (i, traj ! i)"
  shows "py_list (map (task_result env) (frame_args traj)) = Inr (map frame_path_of [0..<length traj])"
proof -
  have "map (task_result env) (frame_args traj) = map Inr (map frame_path_of [0..<length traj])"
    using assms by (auto simp: frame_args_def task_result_ok)
  then show ?thesis by (simp only: py_list_Inr)
qed

lemma distinct_frame_paths: "distinct (map frame_path_of ks) = distinct ks"
  by (auto simp: distinct_map inj_on_def dest: frame_path_of_inj)

lemma py_list_Inl_mem: "py_list rs = Inl e \<Longrightarrow> Inl e \<in> set rs"
proof (induction rs)
  case Nil
  then show ?case by simp
next
  case (Cons a rs)
  then show ?case by (cases a) (auto split: sum.splits)
qed

lemma render_stage_movie:
  assumes "scratch fs = Some es" "completion_order (length traj) order"
  shows "movie (snd (render_stage env wo order g traj fs)) = movie fs"
  unfolding render_stage_eq [OF assms] by simp

lemma render_stage_error:
  assumes "scratch fs = Some es" "completion_order (length traj) order"
    and "fst (render_stage env wo order g traj fs) = Inl e"
  shows "e = IndexError \<or> e = RenderError"
proof -
  from assms(3) have "py_list (map (task_result env) (frame_args traj)) = Inl e"
    unfolding render_stage_eq [OF assms(1,2)] by simp
  from py_list_Inl_mem [OF this] obtain arg where "task_result env arg = Inl e" by auto
  then show ?thesis by (auto dest: task_result_Inl)
qed


section \<open>Facts about the whole run\<close>


lemma remove_each_error: "fst (remove_each names fs) = Some e \<Longrightarrow> e = FileNotFoundError"
proof (induction names arbitrary: fs)
  case Nil
  then show ?case by simp
next
  case (Cons n names)
  then show ?case
    by (auto simp: os_remove_def split: sum.splits option.splits if_splits)
qed

lemma cleanup_error:
  assumes "fst (cleanup fs) = Some e"
  shows "e = FileNotFoundError \<or> e = OSError"
proof (cases "scratch fs")
  case None
  with assms show ?thesis by (simp add: cleanup_def os_listdir_def)
next
  case (Some es)
  obtain r fs' where re: "remove_each (map fst es) fs = (r, fs')"
    by (cases "remove_each (map fst es) fs")
  show ?thesis
  proof (cases r)
    case None
    with assms Some re show ?thesis
      by (auto simp: cleanup_def os_listdir_def os_rmdir_def
          split: option.splits list.splits)
  next
    case (Some e')
    with re have "e' = FileNotFoundError"
      using remove_each_error [of "map fst es" fs e'] by simp
    with assms \<open>scratch fs = Some es\<close> re Some show ?thesis
      by (simp add: cleanup_def os_listdir_def)
  qed
qed

lemma py_list_Inr_all: "py_list (map f xs) = Inr ps \<Longrightarrow> x \<in> set xs \<Longrightarrow> \<not> isl (f x)"
proof (induction xs arbitrary: ps)
  case Nil
  then show ?case by simp
next
  case (Cons a xs)
  then show ?case by (cases "f a") (auto split: sum.splits)
qed

lemma example_completion: "completion_order (length (trajectory example_data)) [1, 0]"
  by (simp add: example_data_def completion_order_def upt_rec)

lemma frame_png_title:
  "ax_title (fig_axes (img_picture (frame_png g sz (i, p)))) =
     ''Timestep '' @ str_int (int i * snapshot_interval g)"
  by (simp add: frame_png_def png_of_def frame_figure_def)

lemma str_int_10: "str_int (int 1 * 10) = ''10''"
  by (simp add: str_int_def str_nat.simps digit_char_def)


section \<open>Assembly from the scratch directory\<close>


lemma imread_all_map:
  "(\<And>k. k \<in> set ks \<Longrightarrow> imread (p k) fs = Inr (v k)) \<Longrightarrow>
   imread_all (map p ks) fs = Inr (map v ks)"
  by (induction ks) simp_all

lemma frame_png_shape: "img_shape (frame_png g sz arg) = (snd sz, fst sz, 4)"
  by (simp add: frame_png_def png_of_def frame_figure_def)

lemma clip_of_frames:
  "ks \<noteq> [] \<Longrightarrow>
   clip_of (map (\<lambda>k. frame_png g sz (a k)) ks) fps =
     Inr \<lparr>v_frames = map (\<lambda>k. frame_png g sz (a k)) ks, v_fps = fps\<rparr>"
  by (cases ks) (simp_all add: clip_of_def frame_png_shape list_all_iff)

lemma written_names:
  assumes "set ks \<subseteq> {0..<length traj}"
  shows "fst ` set (fold (\<lambda>k. write_frame g sz (frame_args traj ! k)) ks es) =
         fst ` set es \<union> frame_name ` set ks"
proof -
  have "fst ` set (fold (\<lambda>k. AList.update (frame_name (fst (frame_args traj ! k)))
                     (frame_png g sz (frame_args traj ! k))) ks es) =
        fst ` set es \<union> (\<lambda>k. frame_name (fst (frame_args traj ! k))) ` set ks"
    by (rule fold_update_keys)
  moreover have "(\<lambda>k. frame_name (fst (frame_args traj ! k))) ` set ks = frame_name ` set ks"
    using assms by (intro image_cong) auto
  ultimately show ?thesis by (simp add: write_frame_def [abs_def])
qed

lemma written_distinct:
  "distinct (map fst es) \<Longrightarrow>
   distinct (map fst (fold (\<lambda>k. write_frame g sz (frame_args traj ! k)) ks es))"
  unfolding write_frame_def [abs_def] by (rule fold_update_distinct)

lemma written_other:
  assumes "set ks \<subseteq> {0..<length traj}" "name \<notin> frame_name ` set ks"
  shows "map_of (fold (\<lambda>k. write_frame g sz (frame_args traj ! k)) ks es) name = map_of es name"
proof -
  have "(\<lambda>k. frame_name (fst (frame_args traj ! k))) ` set ks = frame_name ` set ks"
    using assms(1) by (intro image_cong) auto
  with assms(2) have "name \<notin> (\<lambda>k. frame_name (fst (frame_args traj ! k))) ` set ks" by simp
  then have "map_of (fold (\<lambda>k. AList.update (frame_name (fst (frame_args traj ! k)))
                     (frame_png g sz (frame_args traj ! k))) ks es) name = map_of es name"
    by (rule fold_update_other)
  then show ?thesis by (simp add: write_frame_def [abs_def])
qed

lemma written_fresh:
  assumes "set ks = {0..<n}" "n \<le> length traj"
  shows "mset (map fst (fold (\<lambda>k. write_frame g sz (frame_args traj ! k)) ks [])) =
           mset (map frame_name [0..<n])"
proof -
  have sub: "set ks \<subseteq> {0..<length traj}" using assms by auto
  have d1: "distinct (map fst (fold (\<lambda>k. write_frame g sz (frame_args traj ! k)) ks []))"
    by (rule written_distinct) simp
  have d2: "distinct (map frame_name [0..<n])"
    by (auto simp: distinct_map inj_on_def dest: frame_name_inj)
  have "set (map fst (fold (\<lambda>k. write_frame g sz (frame_args traj ! k)) ks [])) =
      set (map frame_name [0..<n])"
    using written_names [OF sub, of g sz "[]"] assms(1) by simp
  then show ?thesis using d1 d2 by (simp only: set_eq_iff_mset_eq_distinct)
qed

lemma frame_path_of_join: "os_path_join temp_dir (frame_name k) = frame_path_of k"
  by (simp add: frame_path_of_def)

lemma clip_sequence_fresh:
  assumes co: "completion_order n order"
    and names: "distinct names" "set names = frame_name ` set order"
    and seq: "mset seq = mset [0..<n]" "sorted (map frame_path_of seq)"
  shows "clip_sequence temp_dir names = map frame_path_of seq"
proof -
  have d: "distinct (map frame_name [0..<n])"
    by (auto simp: distinct_map inj_on_def dest: frame_name_inj)
  have "set names = set (map frame_name [0..<n])"
    using names(2) completion_order_set [OF co] by simp
  then have "mset names = mset (map frame_name [0..<n])"
    using names(1) d by (simp only: set_eq_iff_mset_eq_distinct)
  also have "\<dots> = mset (map frame_name seq)"
    using seq(1) by (metis mset_map)
  finally have "mset (map (os_path_join temp_dir) names) = mset (map frame_path_of seq)"
    by (metis (no_types, lifting) map_map comp_def mset_map frame_path_of_join map_eq_conv)
  then have "sort (map (os_path_join temp_dir) names) = map frame_path_of seq"
    using seq(2) by (intro properties_for_sort) simp_all
  then show ?thesis by (simp add: clip_sequence_def)
qed


lemma main_fresh:
  assumes np: "np_array (trajectory g) \<noteq> Inl ValueError"
    and ok: "\<forall>i<length (trajectory g). trajectory g ! i \<noteq> [] \<and> \<not> render_fails env i"
    and co: "completion_order (length (trajectory g)) order"
    and fresh: "scratch fs0 = None \<or> scratch fs0 = Some []"
    and ne: "trajectory g \<noteq> []"
    and seq: "mset seq = mset [0..<length (trajectory g)]" "sorted (map frame_path_of seq)"
  shows "main env wo order g fs0 =
     (None, fs0\<lparr>scratch := None,
                movie := Some \<lparr>v_frames = map (\<lambda>i. frame_png g (figsize env) (i, trajectory g ! i)) seq,
                               v_fps = 10\<rparr>\<rparr>)"
proof -
  define traj where "traj = trajectory g"
  define n where "n = length traj"
  define png where "png = (\<lambda>i. frame_png g (figsize env) (i, traj ! i))"
  from np np_array_cases [of "trajectory g"] have npr: "np_array (trajectory g) = Inr traj"
    by (auto simp: traj_def)
  have sc1: "scratch (os_makedirs temp_dir fs0) = Some []"
    using fresh by (auto simp: os_makedirs_def)
  have fs1: "os_makedirs temp_dir fs0 = fs0\<lparr>scratch := Some []\<rparr>"
    using fresh by (auto simp: os_makedirs_def)
  have co': "completion_order (length traj) order" using co by (simp add: traj_def)
  have sub: "set order \<subseteq> {0..<length traj}" using completion_order_set [OF co'] by simp
  have tok: "\<forall>i<length traj. task_ok env (i, traj ! i)"
    using ok by (simp add: task_ok_def traj_def)
  have flt: "filter (\<lambda>k. task_ok env (frame_args traj ! k)) order = order"
    using completion_order_set [OF co'] tok by (auto simp: filter_id_conv)
  define es2 where "es2 = fold (\<lambda>k. write_frame g (figsize env) (frame_args traj ! k)) order []"
  define fs2 where "fs2 = fs0\<lparr>scratch := Some es2\<rparr>"
  have rs: "render_stage env wo order g traj (os_makedirs temp_dir fs0) =
      (Inr (map frame_path_of [0..<length traj]), fs2)"
    using render_stage_eq [OF sc1 co', of env wo g]
    by (simp add: py_list_task_results_ok [OF tok] flt fs2_def es2_def fs1)
  have names: "distinct (map fst es2)" "set (map fst es2) = frame_name ` set order"
    unfolding es2_def using written_names [OF sub, of g "figsize env" "[]"]
    by (simp_all add: written_distinct)
  have cs: "clip_sequence temp_dir (map fst es2) = map frame_path_of seq"
    by (rule clip_sequence_fresh [OF co' names]) (use seq in \<open>simp_all add: traj_def\<close>)
  have seqset: "set seq = {0..<length traj}"
    using seq(1) by (metis mset_eq_setD set_upt traj_def)
  have rd: "imread (frame_path_of k) fs2 = Inr (png k)" if "k \<in> set seq" for k
  proof -
    from that seqset completion_order_set [OF co'] have "k \<in> set order" by simp
    then show ?thesis
      unfolding fs2_def es2_def png_def by (rule imread_written [OF _ sub])
  qed
  have ra: "imread_all (map frame_path_of seq) fs2 = Inr (map png seq)"
    by (rule imread_all_map) (rule rd)
  have "seq \<noteq> []" using seqset ne by (auto simp: traj_def)
  then have cl: "clip_of (map png seq) 10 = Inr \<lparr>v_frames = map png seq, v_fps = 10\<rparr>"
    unfolding png_def by (rule clip_of_frames)
  have isc: "ImageSequenceClip_dir temp_dir 10 fs2 = Inr \<lparr>v_frames = map png seq, v_fps = 10\<rparr>"
    by (simp add: ImageSequenceClip_dir_def os_listdir_def fs2_def cs ra [unfolded fs2_def] cl)
  have cu: "cleanup (write_videofile \<lparr>v_frames = map png seq, v_fps = 10\<rparr> fs2) =
      (None, fs0\<lparr>scratch := None, movie := Some \<lparr>v_frames = map png seq, v_fps = 10\<rparr>\<rparr>)"
    using cleanup_present [OF names(1), of "fs0\<lparr>movie := Some \<lparr>v_frames = map png seq, v_fps = 10\<rparr>\<rparr>"]
    by (cases fs0) (simp add: write_videofile_def fs2_def)
  show ?thesis
    by (simp add: main_def npr Let_def rs isc cu) (simp add: png_def traj_def)
qed
lemma sorted_frame_paths_upt:
  assumes "n \<le> 10000"
  shows "sorted (map frame_path_of [m..<n])"
proof -
  have "sorted_wrt (<) [m..<n]" by (rule sorted_wrt_upt)
  then show ?thesis
  proof (rule sorted_wrt_map_mono)
    fix x y
    assume "x \<in> set [m..<n]" "y \<in> set [m..<n]" "x < y"
    with assms have "x < y" "y < 10000" by auto
    then show "frame_path_of x \<le> frame_path_of y"
      using frame_path_of_mono [of x y] by simp
  qed
qed

lemma completion_order_upt: "completion_order n [0..<n]"
  unfolding completion_order_def by (rule sorted_sort_id) (rule sorted_upt)

lemma moved_forward_mset: "a \<le> b \<Longrightarrow> mset (moved_forward a b) = mset [0..<Suc b]"
proof -
  assume ab: "a \<le> b"
  then have "[0..<b] = [0..<a] @ [a..<b]"
    using upt_add_eq_append [of 0 a "b - a"] by simp
  then have "[0..<Suc b] = [0..<a] @ [a..<b] @ [b]" by simp
  then show ?thesis by (simp add: moved_forward_def)
qed

lemma moved_forward_nth:
  "a \<le> b \<Longrightarrow> length (moved_forward a b) = Suc b"
  "moved_forward a b ! a = b"
  "a < b \<Longrightarrow> moved_forward a b ! Suc a = a"
  by (simp_all add: moved_forward_def nth_append)

lemma moved_forward_sorted:
  assumes a: "sorted (map f [0..<a])" and b: "sorted (map f [a..<b])"
    and c: "\<And>x. x < a \<Longrightarrow> f x \<le> f b"
    and d: "\<And>y. a \<le> y \<Longrightarrow> y < b \<Longrightarrow> f b \<le> f y"
  shows "sorted (map f (moved_forward a b))"
proof -
  have e: "f x \<le> f y" if "x < a" "a \<le> y" "y < b" for x y
    using c [OF that(1)] d [OF that(2,3)] by (rule order_trans)
  show ?thesis
    unfolding moved_forward_def
    using a b c d e by (auto simp: sorted_append)
qed

lemma Suc_10000: "Suc 10000 = 10001" "Suc 1001 = 1002"
  by simp_all

lemma long_sequence_mset: "mset long_sequence = mset [0..<10001]"
  unfolding long_sequence_def Suc_10000 [symmetric]
  by (rule moved_forward_mset) simp

lemma long_sequence_nth:
  "length long_sequence = 10001" "long_sequence ! 1001 = 10000" "long_sequence ! 1002 = 1001"
  unfolding long_sequence_def Suc_10000 [symmetric]
  by (rule moved_forward_nth; simp)+

lemma long_sequence_sorted: "sorted (map frame_path_of long_sequence)"
  unfolding long_sequence_def
proof (rule moved_forward_sorted)
  show "sorted (map frame_path_of [0..<1001])" by (rule sorted_frame_paths_upt) simp
  show "sorted (map frame_path_of [1001..<10000])" by (rule sorted_frame_paths_upt) simp
  show "frame_path_of x \<le> frame_path_of 10000" if "x < 1001" for x
    using frame_path_10000_after [of x] that by simp
  show "frame_path_of 10000 \<le> frame_path_of y" if "1001 \<le> y" "y < 10000" for y
    using frame_path_10000_before [of y] that by simp
qed
lemma long_data_facts:
  "length (trajectory long_data) = 10001"
  "np_array (trajectory long_data) \<noteq> Inl ValueError"
  "trajectory long_data \<noteq> []"
  "i < 10001 \<Longrightarrow> trajectory long_data ! i = [(0, 0, 0)]"
  "snapshot_interval long_data = 1"
  by (simp_all add: long_data_def np_array_def list_all_iff)

lemma str_int_10000: "str_int (int 10000 * 1) = ''10000''"
  by (simp add: str_int_def str_nat_10000)



lemma main_fresh_ordered:
  assumes np: "np_array (trajectory g) \<noteq> Inl ValueError"
    and ok: "\<forall>i<length (trajectory g). trajectory g ! i \<noteq> [] \<and> \<not> render_fails env i"
    and co: "completion_order (length (trajectory g)) order"
    and fresh: "scratch fs0 = None \<or> scratch fs0 = Some []"
    and ne: "trajectory g \<noteq> []"
    and le: "length (trajectory g) \<le> 10000"
  shows "main env wo order g fs0 =
     (None, fs0\<lparr>scratch := None,
                movie := Some \<lparr>v_frames = map (\<lambda>i. frame_png g (figsize env) (i, trajectory g ! i))
                                              [0..<length (trajectory g)],
                               v_fps = 10\<rparr>\<rparr>)"
  by (rule main_fresh [OF np ok co fresh ne refl sorted_frame_paths_upt [OF le]])





section \<open>The figure of a worker\<close>

lemma process_frame_figure:
  "snd arg \<noteq> [] \<Longrightarrow>
   fst (snd (process_frame env g arg fig fs)) = frame_figure g (fig_size fig) (fst arg) (snd arg)"
  by (cases arg, cases fig)
     (simp add: process_frame_def Let_def plot_defs frame_figure_def split: sum.splits)

lemma process_frame_figure_empty:
  "fst (snd (process_frame env g (i, []) fig fs)) =
     ax_set_zlim 0 (box_length g) (ax_set_ylim 0 (box_length g) (ax_set_xlim 0 (box_length g) (ax_clear fig)))"
  by (simp add: process_frame_def Let_def)

lemma frame_figure_size [simp]: "fig_size (frame_figure g sz i p) = sz"
  by (simp add: frame_figure_def)

lemma pool_workers:
  assumes "list_all (\<lambda>a. snd a \<noteq> []) args"
  shows "ps_workers (foldl (run_task env g wo args) (pool_start fig fs) order) w =
     (let ks = filter (\<lambda>k. k < length args \<and> wo k = w) order
      in if ks = [] then fig
         else frame_figure g (fig_size fig) (fst (args ! last ks)) (snd (args ! last ks)))"
proof (induction order arbitrary: w rule: rev_induct)
  case Nil
  show ?case by (simp add: pool_start_def)
next
  case (snoc k order)
  define st where "st = foldl (run_task env g wo args) (pool_start fig fs) order"
  have ih: "ps_workers st w =
     (let ks = filter (\<lambda>k. k < length args \<and> wo k = w) order
      in if ks = [] then fig
         else frame_figure g (fig_size fig) (fst (args ! last ks)) (snd (args ! last ks)))" for w
    unfolding st_def by (rule snoc.IH)
  have sz: "fig_size (ps_workers st w) = fig_size fig" for w
    unfolding ih by (simp add: Let_def)
  have step: "foldl (run_task env g wo args) (pool_start fig fs) (order @ [k]) =
      run_task env g wo args st k"
    by (simp add: st_def)
  show ?case
  proof (cases "k < length args")
    case False
    then show ?thesis unfolding step by (simp add: run_task_def ih)
  next
    case True
    then have ne: "snd (args ! k) \<noteq> []"
      using assms by (simp add: list_all_length)
    obtain r fig' fs' where pf:
      "process_frame env g (args ! k) (ps_workers st (wo k)) (ps_disk st) = (r, fig', fs')"
      by (cases "process_frame env g (args ! k) (ps_workers st (wo k)) (ps_disk st)")
    have "fig' = frame_figure g (fig_size fig) (fst (args ! k)) (snd (args ! k))"
      using process_frame_figure [OF ne, of env g "ps_workers st (wo k)" "ps_disk st"] pf
      by (simp add: sz)
    then have new: "ps_workers (run_task env g wo args st k) =
        (ps_workers st)(wo k := frame_figure g (fig_size fig) (fst (args ! k)) (snd (args ! k)))"
      using True pf by (simp add: run_task_def Let_def)
    show ?thesis
    proof (cases "wo k = w")
      case True
      with \<open>k < length args\<close> show ?thesis unfolding step new by (simp add: Let_def)
    next
      case False
      then show ?thesis unfolding step new by (simp add: ih)
    qed
  qed
qed

lemma written_same:
  assumes "k \<in> set ks" "set ks \<subseteq> {0..<length traj}"
  shows "map_of (fold (\<lambda>k. write_frame g sz (frame_args traj ! k)) ks es) (frame_name k) =
           Some (frame_png g sz (k, traj ! k))"
proof -
  from assms have k: "k < length traj" by auto
  have "map_of (fold (\<lambda>k. AList.update (frame_name (fst (frame_args traj ! k)))
                     (frame_png g sz (frame_args traj ! k))) ks es)
          (frame_name (fst (frame_args traj ! k))) = Some (frame_png g sz (frame_args traj ! k))"
    by (rule fold_update_same [OF frame_name_args_inj [OF assms(2)] assms(1)])
  then show ?thesis
    using k by (simp add: write_frame_def [abs_def])
qed

lemma written_map_of_cong:
  assumes "set ks = set ks'" "set ks \<subseteq> {0..<length traj}"
  shows "map_of (fold (\<lambda>k. write_frame g sz (frame_args traj ! k)) ks es) name =
         map_of (fold (\<lambda>k. write_frame g sz (frame_args traj ! k)) ks' es) name"
proof (cases "name \<in> frame_name ` set ks")
  case True
  then obtain k where k: "k \<in> set ks" "name = frame_name k" by auto
  from k(1) assms(1) have k': "k \<in> set ks'" by simp
  from assms have sub': "set ks' \<subseteq> {0..<length traj}" by simp
  show ?thesis
    unfolding k(2) written_same [OF k(1) assms(2)] written_same [OF k' sub'] ..
next
  case False
  from assms have sub': "set ks' \<subseteq> {0..<length traj}" by simp
  from False assms(1) have False': "name \<notin> frame_name ` set ks'" by simp
  show ?thesis
    unfolding written_other [OF assms(2) False] written_other [OF sub' False'] ..
qed

lemma pool_imap_any_order:
  assumes sc: "scratch fs \<noteq> None"
    and co: "completion_order (length traj) order" "completion_order (length traj) order'"
  shows "fst (pool_imap env g wo order (frame_args traj) fig fs) =
           fst (pool_imap env g wo' order' (frame_args traj) fig fs)"
    and "imread p (snd (pool_imap env g wo order (frame_args traj) fig fs)) =
           imread p (snd (pool_imap env g wo' order' (frame_args traj) fig fs))"
proof -
  from sc obtain es where es: "scratch fs = Some es" by auto
  have co': "completion_order (length (frame_args traj)) order"
      "completion_order (length (frame_args traj)) order'"
    using co by simp_all
  show "fst (pool_imap env g wo order (frame_args traj) fig fs) =
           fst (pool_imap env g wo' order' (frame_args traj) fig fs)"
    unfolding pool_imap_results [OF es co'(1)] pool_imap_results [OF es co'(2)] ..
  define ks where "ks = filter (\<lambda>k. k < length (frame_args traj) \<and> task_ok env (frame_args traj ! k)) order"
  define ks' where "ks' = filter (\<lambda>k. k < length (frame_args traj) \<and> task_ok env (frame_args traj ! k)) order'"
  have s: "set ks = set ks'"
    unfolding ks_def ks'_def using completion_order_set [OF co(1)] completion_order_set [OF co(2)]
    by simp
  have sub: "set ks \<subseteq> {0..<length traj}"
    unfolding ks_def by auto
  have "imread p (fs\<lparr>scratch := Some (fold (\<lambda>k. write_frame g (fig_size fig) (frame_args traj ! k)) ks es)\<rparr>) =
        imread p (fs\<lparr>scratch := Some (fold (\<lambda>k. write_frame g (fig_size fig) (frame_args traj ! k)) ks' es)\<rparr>)"
    by (cases "entry_name p") (simp_all add: imread_def written_map_of_cong [OF s sub])
  then show "imread p (snd (pool_imap env g wo order (frame_args traj) fig fs)) =
           imread p (snd (pool_imap env g wo' order' (frame_args traj) fig fs))"
    unfolding pool_imap_disk [OF es] ks_def ks'_def .
qed

section \<open>Frame order of the video\<close>

text \<open>
  Claim C1 does not hold of the parallel script. The clip is built from the scratch
  directory, whose file names are read in sorted order, and the four-digit padding
  keeps that order equal to the index order only below index 10000. For a trajectory
  of 10001 snapshots and every completion order of the pool, the run ends without
  exception and the video has 10001 frames, but its frame at position 1001 is the
  frame of snapshot 10000 (titled \<^verbatim>\<open>Timestep 10000\<close>), ahead of the frame of snapshot
  1001 at position 1002.
\<close>

theorem frames_out_of_order_beyond_10000:
  assumes "completion_order 10001 order"
  shows "\<exists>v. main example_env wo order long_data empty_fs = (None, \<lparr>scratch = None, movie = Some v\<rparr>) \<and>
             length (v_frames v) = 10001 \<and>
             v_frames v ! 1001 = frame_png long_data (640, 480) (10000, [(0, 0, 0)]) \<and>
             v_frames v ! 1002 = frame_png long_data (640, 480) (1001, [(0, 0, 0)]) \<and>
             ax_title (fig_axes (img_picture (v_frames v ! 1001))) = ''Timestep 10000''"
proof -
  define png where "png = (\<lambda>i. frame_png long_data (figsize example_env) (i, trajectory long_data ! i))"
  define v where "v = \<lparr>v_frames = map png long_sequence, v_fps = 10\<rparr>"
  have co: "completion_order (length (trajectory long_data)) order"
    using assms by (simp only: long_data_facts(1))
  have ok: "\<forall>i<length (trajectory long_data). trajectory long_data ! i \<noteq> [] \<and> \<not> render_fails example_env i"
    by (simp add: long_data_facts example_env_def)
  have fr: "scratch empty_fs = None \<or> scratch empty_fs = Some []"
    by (simp add: empty_fs_def)
  have ms: "mset long_sequence = mset [0..<length (trajectory long_data)]"
    by (simp only: long_data_facts(1) long_sequence_mset)
  have "main example_env wo order long_data empty_fs =
      (None, empty_fs\<lparr>scratch := None, movie := Some v\<rparr>)"
    unfolding v_def png_def
    by (rule main_fresh [OF long_data_facts(2) ok co fr long_data_facts(3) ms long_sequence_sorted])
  then have m: "main example_env wo order long_data empty_fs = (None, \<lparr>scratch = None, movie = Some v\<rparr>)"
    by (simp add: empty_fs_def)
  have len: "length (v_frames v) = 10001"
    by (simp add: v_def long_sequence_nth)
  have sz: "figsize example_env = (640, 480)" by (simp add: example_env_def)
  have a: "v_frames v ! 1001 = frame_png long_data (640, 480) (10000, [(0, 0, 0)])"
    by (simp add: v_def long_sequence_nth png_def long_data_facts sz)
  have b: "v_frames v ! 1002 = frame_png long_data (640, 480) (1001, [(0, 0, 0)])"
    by (simp add: v_def long_sequence_nth png_def long_data_facts sz)
  have c: "ax_title (fig_axes (img_picture (v_frames v ! 1001))) = ''Timestep 10000''"
    unfolding a frame_png_title long_data_facts(5) str_int_10000 by simp
  from m len a b c show ?thesis by blast
qed

theorem frames_out_of_order_beyond_10000_witness:
  "completion_order 10001 [0..<10001] \<and>
   (\<exists>v. main example_env (\<lambda>k. k mod 4) [0..<10001] long_data empty_fs =
           (None, \<lparr>scratch = None, movie = Some v\<rparr>) \<and>
        length (v_frames v) = 10001 \<and>
        v_frames v ! 1001 = frame_png long_data (640, 480) (10000, [(0, 0, 0)]) \<and>
        v_frames v ! 1002 = frame_png long_data (640, 480) (1001, [(0, 0, 0)]) \<and>
        ax_title (fig_axes (img_picture (v_frames v ! 1001))) = ''Timestep 10000'')"
  using frames_out_of_order_beyond_10000 [OF completion_order_upt, of "\<lambda>k. k mod 4"]
    completion_order_upt [of 10001]
  by blast

section \<open>Shape of the trajectory\<close>




section \<open>The rendering context\<close>

text \<open>
  Claim C3, as stated, fails: an invocation has no rendering context of its own. It
  draws on the figure of the process it runs in and leaves its drawing there; in the
  pool, the figure a worker holds after a task, which its next invocation starts from,
  is that task's drawing.
\<close>

theorem process_frame_reuses_context:
  "fst (snd (process_frame example_env example_data (0, [(1, 1, 1), (2, 2, 2)])
      (plt_figure example_env) (os_makedirs temp_dir empty_fs))) \<noteq> plt_figure example_env \<and>
   ps_workers (run_task example_env example_data (\<lambda>k. 0) (frame_args (trajectory example_data))
      (pool_start (plt_figure example_env) (os_makedirs temp_dir empty_fs)) 0) 0 =
     frame_figure example_data (640, 480) 0 [(1, 1, 1), (2, 2, 2)]"
  by code_simp

text \<open>
  Claim C3, amended. An invocation has no rendering context of its own:
  \<^verbatim>\<open>process_frame\<close> draws on the figure and axes of the process it runs in and leaves
  its drawing there (cleared axes with the limits when the snapshot is empty), so the
  consecutive invocations of one worker use one figure. No plotting state is shared
  across workers: after any run of the pool on non-empty snapshots, the figure of a
  worker is the drawing of the last task that this worker ran, and the starting
  figure if it ran none. Each invocation clears the axes first, so what it returns
  and what it writes do not depend on what was drawn on the figure before, only on
  its canvas size, the box length, the snapshot interval and the arguments. So it is
  safely callable concurrently: the results and files of a pool run do not depend on
  which worker ran which task, and for the argument list of the script the returned
  list and the content of every file are the same for every completion order.
\<close>

theorem process_frame_shares_worker_figure:
  "fst (snd (process_frame env g (i, positions) fig fs)) =
     (if positions = []
      then ax_set_zlim 0 (box_length g) (ax_set_ylim 0 (box_length g)
             (ax_set_xlim 0 (box_length g) (ax_clear fig)))
      else frame_figure g (fig_size fig) i positions) \<and>
   (list_all (\<lambda>a. snd a \<noteq> []) args \<longrightarrow>
      ps_workers (foldl (run_task env g wo args) (pool_start fig fs) order) w =
        (let ks = filter (\<lambda>k. k < length args \<and> wo k = w) order
         in if ks = [] then fig
            else frame_figure g (fig_size fig) (fst (args ! last ks)) (snd (args ! last ks)))) \<and>
   (fig_size fig1 = fig_size fig2 \<and> box_length g = box_length g' \<and>
    snapshot_interval g = snapshot_interval g' \<longrightarrow>
      fst (process_frame env g arg fig1 fs) = fst (process_frame env g' arg fig2 fs) \<and>
      snd (snd (process_frame env g arg fig1 fs)) = snd (snd (process_frame env g' arg fig2 fs))) \<and>
   (scratch fs \<noteq> None \<longrightarrow>
      pool_imap env g wo order args fig fs = pool_imap env g wo' order args fig fs) \<and>
   (scratch fs \<noteq> None \<and> completion_order (length traj) order \<and>
    completion_order (length traj) order' \<longrightarrow>
      fst (pool_imap env g wo order (frame_args traj) fig fs) =
        fst (pool_imap env g wo' order' (frame_args traj) fig fs) \<and>
      (\<forall>p. imread p (snd (pool_imap env g wo order (frame_args traj) fig fs)) =
           imread p (snd (pool_imap env g wo' order' (frame_args traj) fig fs))))"
proof -
  have A: "fst (snd (process_frame env g (i, positions) fig fs)) =
     (if positions = []
      then ax_set_zlim 0 (box_length g) (ax_set_ylim 0 (box_length g)
             (ax_set_xlim 0 (box_length g) (ax_clear fig)))
      else frame_figure g (fig_size fig) i positions)"
    using process_frame_figure [of "(i, positions)" env g fig fs]
      process_frame_figure_empty [of env g i fig fs]
    by (cases "positions = []") simp_all
  have B: "ps_workers (foldl (run_task env g wo args) (pool_start fig fs) order) w =
        (let ks = filter (\<lambda>k. k < length args \<and> wo k = w) order
         in if ks = [] then fig
            else frame_figure g (fig_size fig) (fst (args ! last ks)) (snd (args ! last ks)))"
    if "list_all (\<lambda>a. snd a \<noteq> []) args"
    using that by (rule pool_workers)
  have C: "fst (process_frame env g arg fig1 fs) = fst (process_frame env g' arg fig2 fs) \<and>
      snd (snd (process_frame env g arg fig1 fs)) = snd (snd (process_frame env g' arg fig2 fs))"
    if "fig_size fig1 = fig_size fig2" "box_length g = box_length g'"
      "snapshot_interval g = snapshot_interval g'"
    using that
    by (cases arg, cases fig1, cases fig2)
       (simp add: process_frame_def Let_def plot_defs plt_savefig_def png_of_def
         split: option.splits)
  have D: "pool_imap env g wo order args fig fs = pool_imap env g wo' order args fig fs"
    if "scratch fs \<noteq> None"
  proof -
    from that obtain es where es: "scratch fs = Some es" by auto
    show ?thesis
      using pool_run [OF es, of env g wo args fig order] pool_run [OF es, of env g wo' args fig order]
      by (simp add: pool_imap_def Let_def pool_start_def)
  qed
  have E: "fst (pool_imap env g wo order (frame_args traj) fig fs) =
        fst (pool_imap env g wo' order' (frame_args traj) fig fs) \<and>
      (\<forall>p. imread p (snd (pool_imap env g wo order (frame_args traj) fig fs)) =
           imread p (snd (pool_imap env g wo' order' (frame_args traj) fig fs)))"
    if "scratch fs \<noteq> None" "completion_order (length traj) order"
      "completion_order (length traj) order'"
    using pool_imap_any_order [OF that] by blast
  have B': "list_all (\<lambda>a. snd a \<noteq> []) args \<longrightarrow>
      ps_workers (foldl (run_task env g wo args) (pool_start fig fs) order) w =
        (let ks = filter (\<lambda>k. k < length args \<and> wo k = w) order
         in if ks = [] then fig
            else frame_figure g (fig_size fig) (fst (args ! last ks)) (snd (args ! last ks)))"
    using B by (rule impI)
  have C': "fig_size fig1 = fig_size fig2 \<and> box_length g = box_length g' \<and>
    snapshot_interval g = snapshot_interval g' \<longrightarrow>
      fst (process_frame env g arg fig1 fs) = fst (process_frame env g' arg fig2 fs) \<and>
      snd (snd (process_frame env g arg fig1 fs)) = snd (snd (process_frame env g' arg fig2 fs))"
    using C by blast
  have D': "scratch fs \<noteq> None \<longrightarrow>
      pool_imap env g wo order args fig fs = pool_imap env g wo' order args fig fs"
    using D by (rule impI)
  have E': "scratch fs \<noteq> None \<and> completion_order (length traj) order \<and>
    completion_order (length traj) order' \<longrightarrow>
      fst (pool_imap env g wo order (frame_args traj) fig fs) =
        fst (pool_imap env g wo' order' (frame_args traj) fig fs) \<and>
      (\<forall>p. imread p (snd (pool_imap env g wo order (frame_args traj) fig fs)) =
           imread p (snd (pool_imap env g wo' order' (frame_args traj) fig fs)))"
    using E by blast
  show ?thesis by (intro conjI A B' C' D' E')
qed

theorem process_frame_shares_worker_figure_witness:
  "fst (snd (process_frame example_env example_data (1, [(3, 3, 3), (4, 4, 4)])
      (plt_figure example_env) (os_makedirs temp_dir empty_fs))) =
     frame_figure example_data (640, 480) 1 [(3, 3, 3), (4, 4, 4)] \<and>
   ps_workers (foldl (run_task example_env example_data (\<lambda>k. k mod 2)
        (frame_args (trajectory example_data)))
      (pool_start (plt_figure example_env) (os_makedirs temp_dir empty_fs)) [1, 0]) 1 =
     frame_figure example_data (640, 480) 1 [(3, 3, 3), (4, 4, 4)] \<and>
   scratch (os_makedirs temp_dir empty_fs) \<noteq> None \<and>
   fst (pool_imap example_env example_data (\<lambda>k. 0) [1, 0] (frame_args (trajectory example_data))
      (plt_figure example_env) (os_makedirs temp_dir empty_fs)) =
   fst (pool_imap example_env example_data (\<lambda>k. k mod 2) [0, 1] (frame_args (trajectory example_data))
      (plt_figure example_env) (os_makedirs temp_dir empty_fs)) \<and>
   imread (frame_path_of 0)
     (snd (pool_imap example_env example_data (\<lambda>k. 0) [1, 0] (frame_args (trajectory example_data))
        (plt_figure example_env) (os_makedirs temp_dir empty_fs))) =
   imread (frame_path_of 0)
     (snd (pool_imap example_env example_data (\<lambda>k. k mod 2) [0, 1] (frame_args (trajectory example_data))
        (plt_figure example_env) (os_makedirs temp_dir empty_fs)))"
proof -
  have t: "trajectory example_data = [[(1, 1, 1), (2, 2, 2)], [(3, 3, 3), (4, 4, 4)]]"
    by (simp add: example_data_def)
  have fa: "frame_args (trajectory example_data) = [(0, [(1, 1, 1), (2, 2, 2)]), (1, [(3, 3, 3), (4, 4, 4)])]"
    by (simp add: frame_args_def t upt_rec)
  have sz: "fig_size (plt_figure example_env) = (640, 480)"
    by (simp add: plt_figure_def example_env_def)
  have sc: "scratch (os_makedirs temp_dir empty_fs) \<noteq> None"
    by (simp add: os_makedirs_def empty_fs_def)
  have co: "completion_order (length (trajectory example_data)) [1, 0]"
    "completion_order (length (trajectory example_data)) [0, 1]"
    by (simp_all add: t completion_order_def upt_rec)
  note a = process_frame_shares_worker_figure [where env = example_env and g = example_data
      and i = 1 and positions = "[(3, 3, 3), (4, 4, 4)]" and fig = "plt_figure example_env"
      and fs = "os_makedirs temp_dir empty_fs", THEN conjunct1]
  have a': "fst (snd (process_frame example_env example_data (1, [(3, 3, 3), (4, 4, 4)])
      (plt_figure example_env) (os_makedirs temp_dir empty_fs))) =
     frame_figure example_data (640, 480) 1 [(3, 3, 3), (4, 4, 4)]"
    using a by (simp add: sz)
  note b = process_frame_shares_worker_figure [where env = example_env and g = example_data
      and fig = "plt_figure example_env" and fs = "os_makedirs temp_dir empty_fs"
      and args = "frame_args (trajectory example_data)" and wo = "\<lambda>k. k mod 2"
      and order = "[1, 0]" and w = 1, THEN conjunct2, THEN conjunct1]
  have b': "ps_workers (foldl (run_task example_env example_data (\<lambda>k. k mod 2)
        (frame_args (trajectory example_data)))
      (pool_start (plt_figure example_env) (os_makedirs temp_dir empty_fs)) [1, 0]) 1 =
     frame_figure example_data (640, 480) 1 [(3, 3, 3), (4, 4, 4)]"
    using b by (simp add: fa sz)
  note e = process_frame_shares_worker_figure [where env = example_env and g = example_data
      and fig = "plt_figure example_env" and fs = "os_makedirs temp_dir empty_fs"
      and traj = "trajectory example_data" and wo = "\<lambda>k. 0" and wo' = "\<lambda>k. k mod 2"
      and order = "[1, 0]" and order' = "[0, 1]",
      THEN conjunct2, THEN conjunct2, THEN conjunct2, THEN conjunct2]
  from e sc co have e': "fst (pool_imap example_env example_data (\<lambda>k. 0) [1, 0] (frame_args (trajectory example_data))
      (plt_figure example_env) (os_makedirs temp_dir empty_fs)) =
   fst (pool_imap example_env example_data (\<lambda>k. k mod 2) [0, 1] (frame_args (trajectory example_data))
      (plt_figure example_env) (os_makedirs temp_dir empty_fs)) \<and>
     (\<forall>p. imread p
     (snd (pool_imap example_env example_data (\<lambda>k. 0) [1, 0] (frame_args (trajectory example_data))
        (plt_figure example_env) (os_makedirs temp_dir empty_fs))) =
   imread p
     (snd (pool_imap example_env example_data (\<lambda>k. k mod 2) [0, 1] (frame_args (trajectory example_data))
        (plt_figure example_env) (os_makedirs temp_dir empty_fs))))"
    by blast
  from a' b' sc e' show ?thesis by blast
qed

section \<open>Cleanup, once and twice\<close>

text \<open>
  Claim C4, as stated, fails: cleanup succeeds on the leftover directory, but a second
  cleanup, or a cleanup without a scratch directory, raises \<^verbatim>\<open>FileNotFoundError\<close>.
\<close>

theorem cleanup_not_idempotent:
  "fst (cleanup leftover_fs) = None \<and>
   fst (cleanup (snd (cleanup leftover_fs))) = Some FileNotFoundError \<and>
   fst (cleanup empty_fs) = Some FileNotFoundError"
  by code_simp

text \<open>
  Claim C4, amended. Cleanup tolerates any set of files in the scratch directory (it
  removes what the directory lists, so a file already gone is not asked for), but it
  needs the directory: on an existing directory it ends without exception and leaves
  no directory; on a missing directory, as after a first cleanup, it raises
  \<^verbatim>\<open>FileNotFoundError\<close> and changes nothing.
\<close>

theorem cleanup_needs_directory:
  "(scratch fs = Some es \<and> distinct (map fst es) \<longrightarrow>
      cleanup fs = (None, fs\<lparr>scratch := None\<rparr>) \<and>
      cleanup (snd (cleanup fs)) = (Some FileNotFoundError, fs\<lparr>scratch := None\<rparr>)) \<and>
   (scratch fs = None \<longrightarrow> cleanup fs = (Some FileNotFoundError, fs))"
proof -
  have "cleanup fs = (None, fs\<lparr>scratch := None\<rparr>)" if "scratch fs = Some es" "distinct (map fst es)"
  proof -
    have "fs = fs\<lparr>scratch := Some es\<rparr>" using that(1) by simp
    with cleanup_present [OF that(2), of fs] show ?thesis by simp
  qed
  moreover have "cleanup (fs\<lparr>scratch := None\<rparr>) = (Some FileNotFoundError, fs\<lparr>scratch := None\<rparr>)"
    by (rule cleanup_absent) simp
  ultimately show ?thesis by (simp add: cleanup_absent)
qed

theorem cleanup_needs_directory_witness:
  "scratch leftover_fs = Some [(''frame_0001.png'', leftover_image), (''old_plot.png'', leftover_image)] \<and>
   cleanup leftover_fs = (None, leftover_fs\<lparr>scratch := None\<rparr>) \<and>
   cleanup (snd (cleanup leftover_fs)) = (Some FileNotFoundError, leftover_fs\<lparr>scratch := None\<rparr>) \<and>
   scratch empty_fs = None \<and> cleanup empty_fs = (Some FileNotFoundError, empty_fs)"
proof -
  have a: "scratch leftover_fs = Some [(''frame_0001.png'', leftover_image), (''old_plot.png'', leftover_image)]"
    by (simp add: leftover_fs_def)
  have d: "distinct (map fst [(''frame_0001.png'', leftover_image), (''old_plot.png'', leftover_image)])"
    by simp
  have e: "scratch empty_fs = None" by (simp add: empty_fs_def)
  have t1: "cleanup leftover_fs = (None, leftover_fs\<lparr>scratch := None\<rparr>) \<and>
      cleanup (snd (cleanup leftover_fs)) = (Some FileNotFoundError, leftover_fs\<lparr>scratch := None\<rparr>)"
    using cleanup_needs_directory [of leftover_fs
        "[(''frame_0001.png'', leftover_image), (''old_plot.png'', leftover_image)]"] a d
    by blast
  have t2: "cleanup empty_fs = (Some FileNotFoundError, empty_fs)"
    using cleanup_needs_directory [of empty_fs "[]"] e by blast
  from a e t1 t2 show ?thesis by blast
qed

text \<open>
  Claim C9. Cleanup of the parallel variant deletes every file the scratch directory
  holds at cleanup time, whatever its name and whoever wrote it: the loop removes each
  listed file, the directory is then empty and is removed, and no file of it can be
  read afterwards. A run that ends without exception leaves no scratch directory,
  whatever it held before the run.
\<close>

theorem cleanup_removes_every_file:
  "(scratch fs = Some es \<and> distinct (map fst es) \<longrightarrow>
      remove_each (map fst es) fs = (None, fs\<lparr>scratch := Some []\<rparr>) \<and>
      cleanup fs = (None, fs\<lparr>scratch := None\<rparr>) \<and>
      (\<forall>n \<in> fst ` set es. imread (os_path_join temp_dir n) (snd (cleanup fs)) = Inl FileNotFoundError)) \<and>
   (fst (main env worker_of order g fs0) = None \<longrightarrow> scratch (snd (main env worker_of order g fs0)) = None)"
proof -
  have A: "remove_each (map fst es) fs = (None, fs\<lparr>scratch := Some []\<rparr>)"
       "cleanup fs = (None, fs\<lparr>scratch := None\<rparr>)"
    if "scratch fs = Some es" "distinct (map fst es)"
  proof -
    have eq: "fs = fs\<lparr>scratch := Some es\<rparr>" using that(1) by simp
    from remove_each_all [OF that(2), of fs] eq
    show "remove_each (map fst es) fs = (None, fs\<lparr>scratch := Some []\<rparr>)" by simp
    from cleanup_present [OF that(2), of fs] eq
    show "cleanup fs = (None, fs\<lparr>scratch := None\<rparr>)" by simp
  qed
  have B: "scratch (snd (main env worker_of order g fs0)) = None"
    if "fst (main env worker_of order g fs0) = None"
    using that
    by (auto simp: main_def Let_def split: sum.splits prod.splits dest: cleanup_None_scratch)
  from A B show ?thesis by (simp add: imread_def)
qed

theorem cleanup_removes_every_file_witness:
  "scratch leftover_fs = Some [(''frame_0001.png'', leftover_image), (''old_plot.png'', leftover_image)] \<and>
   cleanup leftover_fs = (None, leftover_fs\<lparr>scratch := None\<rparr>) \<and>
   imread (os_path_join temp_dir ''old_plot.png'') (snd (cleanup leftover_fs)) = Inl FileNotFoundError \<and>
   fst (main example_env (\<lambda>k. k mod 2) [1, 0] example_data leftover_fs) = None \<and>
   scratch (snd (main example_env (\<lambda>k. k mod 2) [1, 0] example_data leftover_fs)) = None"
proof -
  have a: "scratch leftover_fs = Some [(''frame_0001.png'', leftover_image), (''old_plot.png'', leftover_image)]"
    by (simp add: leftover_fs_def)
  have d: "distinct (map fst [(''frame_0001.png'', leftover_image), (''old_plot.png'', leftover_image)])"
    by simp
  have m: "fst (main example_env (\<lambda>k. k mod 2) [1, 0] example_data leftover_fs) = None"
    by code_simp
  note t = cleanup_removes_every_file [of leftover_fs
      "[(''frame_0001.png'', leftover_image), (''old_plot.png'', leftover_image)]"
      example_env "\<lambda>k. k mod 2" "[1, 0]" example_data leftover_fs]
  have t1: "cleanup leftover_fs = (None, leftover_fs\<lparr>scratch := None\<rparr>)"
    using t a d by blast
  have t2: "\<forall>n \<in> fst ` set [(''frame_0001.png'', leftover_image), (''old_plot.png'', leftover_image)].
      imread (os_path_join temp_dir n) (snd (cleanup leftover_fs)) = Inl FileNotFoundError"
    using t a d by blast
  have "''old_plot.png'' \<in> fst ` set [(''frame_0001.png'', leftover_image), (''old_plot.png'', leftover_image)]"
    by simp
  with t2 have t3: "imread (os_path_join temp_dir ''old_plot.png'') (snd (cleanup leftover_fs)) =
      Inl FileNotFoundError"
    by blast
  have t4: "scratch (snd (main example_env (\<lambda>k. k mod 2) [1, 0] example_data leftover_fs)) = None"
    using t m by blast
  from a t1 t3 m t4 show ?thesis by blast
qed

section \<open>The rendering stage\<close>

text \<open>
  Claim C5. For a valid input (no empty snapshot, no failure of the plotting library),
  an existing scratch directory (line 48 has made it) and every completion order of
  the pool, the rendering stage produces exactly one artifact per snapshot. The list
  it returns has the length of the trajectory, its entry \<open>i\<close> is the path of frame
  \<open>i\<close>, no two entries are equal, and the file at entry \<open>i\<close> holds the picture of
  snapshot \<open>i\<close>. The stage writes nothing else: the scratch directory holds the names
  it held before and the frame names of the snapshots, every file under another name is
  as it was, and a directory that was empty before holds exactly one file per
  snapshot afterwards.
\<close>

theorem render_stage_one_frame_per_snapshot:
  assumes "scratch fs = Some es"
    and "completion_order (length traj) order"
    and "\<forall>i<length traj. traj ! i \<noteq> [] \<and> \<not> render_fails env i"
  shows "\<exists>paths fs' es'.
           render_stage env wo order g traj fs = (Inr paths, fs') \<and>
           length paths = length traj \<and> distinct paths \<and>
           (\<forall>i<length traj.
              paths ! i = frame_path_of i \<and>
              imread (paths ! i) fs' = Inr (frame_png g (figsize env) (i, traj ! i))) \<and>
           fs' = fs\<lparr>scratch := Some es'\<rparr> \<and>
           fst ` set es' = fst ` set es \<union> frame_name ` {0..<length traj} \<and>
           (\<forall>name. name \<notin> frame_name ` {0..<length traj} \<longrightarrow> map_of es' name = map_of es name) \<and>
           (distinct (map fst es) \<longrightarrow> distinct (map fst es')) \<and>
           (es = [] \<longrightarrow>
              mset (map fst es') = mset (map frame_name [0..<length traj]) \<and>
              length es' = length traj)"
proof -
  have ok: "\<forall>i<length traj. task_ok env (i, traj ! i)"
    using assms(3) by (simp add: task_ok_def)
  have so: "set order = {0..<length traj}" by (rule completion_order_set [OF assms(2)])
  then have sub: "set order \<subseteq> {0..<length traj}" by simp
  have flt: "filter (\<lambda>k. task_ok env (frame_args traj ! k)) order = order"
    using so ok by (auto simp: filter_id_conv)
  define es' where "es' = fold (\<lambda>k. write_frame g (figsize env) (frame_args traj ! k)) order es"
  define fs' where "fs' = fs\<lparr>scratch := Some es'\<rparr>"
  have rs: "render_stage env wo order g traj fs = (Inr (map frame_path_of [0..<length traj]), fs')"
    unfolding render_stage_eq [OF assms(1,2)] py_list_task_results_ok [OF ok] flt fs'_def es'_def ..
  have rd: "imread (frame_path_of i) fs' = Inr (frame_png g (figsize env) (i, traj ! i))"
    if "i < length traj" for i
    unfolding fs'_def es'_def
    by (rule imread_written) (use that so in auto)
  have dp: "distinct (map frame_path_of [0..<length traj])"
    by (simp add: distinct_frame_paths)
  have keys: "fst ` set es' = fst ` set es \<union> frame_name ` {0..<length traj}"
    unfolding es'_def using written_names [OF sub, of g "figsize env" es] so by simp
  have other: "map_of es' name = map_of es name" if "name \<notin> frame_name ` {0..<length traj}" for name
    unfolding es'_def by (rule written_other [OF sub]) (use that so in simp)
  have dist: "distinct (map fst es')" if "distinct (map fst es)"
    unfolding es'_def using that by (rule written_distinct)
  have fresh: "mset (map fst es') = mset (map frame_name [0..<length traj]) \<and> length es' = length traj"
    if "es = []"
  proof -
    have m: "mset (map fst es') = mset (map frame_name [0..<length traj])"
      unfolding es'_def that by (rule written_fresh [OF so]) simp
    then have "size (mset (map fst es')) = size (mset (map frame_name [0..<length traj]))"
      by simp
    then have "length es' = length traj" by simp
    with m show ?thesis by simp
  qed
  have nth: "map frame_path_of [0..<length traj] ! i = frame_path_of i" if "i < length traj" for i
    using that by simp
  have each: "\<forall>i<length traj.
      map frame_path_of [0..<length traj] ! i = frame_path_of i \<and>
      imread (map frame_path_of [0..<length traj] ! i) fs' =
        Inr (frame_png g (figsize env) (i, traj ! i))"
    using nth rd by simp
  have len: "length (map frame_path_of [0..<length traj]) = length traj" by simp
  have f: "fs' = fs\<lparr>scratch := Some es'\<rparr>" by (rule fs'_def)
  have other': "\<forall>name. name \<notin> frame_name ` {0..<length traj} \<longrightarrow> map_of es' name = map_of es name"
    using other by blast
  have dist': "distinct (map fst es) \<longrightarrow> distinct (map fst es')"
    using dist by blast
  have fresh': "es = [] \<longrightarrow>
      mset (map fst es') = mset (map frame_name [0..<length traj]) \<and> length es' = length traj"
    using fresh by blast
  show ?thesis
  proof (intro exI conjI)
    show "render_stage env wo order g traj fs = (Inr (map frame_path_of [0..<length traj]), fs')"
      by (rule rs)
    show "length (map frame_path_of [0..<length traj]) = length traj" by (rule len)
    show "distinct (map frame_path_of [0..<length traj])" by (rule dp)
    show "\<forall>i<length traj.
      map frame_path_of [0..<length traj] ! i = frame_path_of i \<and>
      imread (map frame_path_of [0..<length traj] ! i) fs' =
        Inr (frame_png g (figsize env) (i, traj ! i))"
      by (rule each)
    show "fs' = fs\<lparr>scratch := Some es'\<rparr>" by (rule f)
    show "fst ` set es' = fst ` set es \<union> frame_name ` {0..<length traj}" by (rule keys)
    show "\<forall>name. name \<notin> frame_name ` {0..<length traj} \<longrightarrow> map_of es' name = map_of es name"
      by (rule other')
    show "distinct (map fst es) \<longrightarrow> distinct (map fst es')" by (rule dist')
    show "es = [] \<longrightarrow>
      mset (map fst es') = mset (map frame_name [0..<length traj]) \<and> length es' = length traj"
      by (rule fresh')
  qed
qed

theorem render_stage_one_frame_per_snapshot_witness:
  "\<exists>paths fs' es'.
     render_stage example_env (\<lambda>k. k mod 2) [1, 0] example_data (trajectory example_data)
       (os_makedirs temp_dir empty_fs) = (Inr paths, fs') \<and>
     length paths = 2 \<and> distinct paths \<and>
     paths ! 1 = frame_path_of 1 \<and>
     imread (paths ! 1) fs' =
       Inr (frame_png example_data (640, 480) (1, [(3, 3, 3), (4, 4, 4)])) \<and>
     scratch fs' = Some es' \<and> length es' = 2"
proof -
  have a: "scratch (os_makedirs temp_dir empty_fs) = Some []"
    by (simp add: os_makedirs_def empty_fs_def)
  have t: "trajectory example_data = [[(1, 1, 1), (2, 2, 2)], [(3, 3, 3), (4, 4, 4)]]"
    by (simp add: example_data_def)
  have l: "length (trajectory example_data) = 2" by (simp add: t)
  have b: "completion_order (length (trajectory example_data)) [1, 0]"
    by (rule example_completion)
  have c: "\<forall>i<length (trajectory example_data).
      trajectory example_data ! i \<noteq> [] \<and> \<not> render_fails example_env i"
    by (simp add: t example_env_def less_Suc_eq numeral_2_eq_2)
  note ex = render_stage_one_frame_per_snapshot [OF a b c, of "\<lambda>k. k mod 2" example_data]
  from ex obtain paths fs' es' where
    r1: "render_stage example_env (\<lambda>k. k mod 2) [1, 0] example_data (trajectory example_data)
       (os_makedirs temp_dir empty_fs) = (Inr paths, fs')"
    and r2: "length paths = length (trajectory example_data)"
    and r3: "distinct paths"
    and r4: "\<forall>i<length (trajectory example_data).
        paths ! i = frame_path_of i \<and>
        imread (paths ! i) fs' =
          Inr (frame_png example_data (figsize example_env) (i, trajectory example_data ! i))"
    and r5: "fs' = (os_makedirs temp_dir empty_fs)\<lparr>scratch := Some es'\<rparr>"
    and r6: "([] :: (string \<times> image) list) = [] \<longrightarrow>
        mset (map fst es') = mset (map frame_name [0..<length (trajectory example_data)]) \<and>
        length es' = length (trajectory example_data)"
    by (elim exE conjE)
  have "(1::nat) < length (trajectory example_data)" by (simp add: l)
  with r4 have p: "paths ! 1 = frame_path_of 1 \<and>
      imread (paths ! 1) fs' =
        Inr (frame_png example_data (figsize example_env) (1, trajectory example_data ! 1))"
    by blast
  have q: "figsize example_env = (640, 480)" "trajectory example_data ! 1 = [(3, 3, 3), (4, 4, 4)]"
    by (simp_all add: example_env_def t)
  have s: "scratch fs' = Some es'" unfolding r5 by simp
  from r6 have n: "length es' = length (trajectory example_data)" by (rule mp [THEN conjunct2]) (rule refl)
  show ?thesis
  proof (intro exI conjI)
    show "render_stage example_env (\<lambda>k. k mod 2) [1, 0] example_data (trajectory example_data)
       (os_makedirs temp_dir empty_fs) = (Inr paths, fs')" by (rule r1)
    show "length paths = 2" using r2 unfolding l .
    show "distinct paths" by (rule r3)
    show "paths ! 1 = frame_path_of 1" using p by (rule conjunct1)
    show "imread (paths ! 1) fs' = Inr (frame_png example_data (640, 480) (1, [(3, 3, 3), (4, 4, 4)]))"
      using p [THEN conjunct2] unfolding q .
    show "scratch fs' = Some es'" by (rule s)
    show "length es' = 2" using n unfolding l .
  qed
qed

text \<open>
  Claim C6. If the invocation for some snapshot fails (its slicing raises, or the
  plotting library fails while saving), then for every completion order the run ends
  with that kind of exception, raised out of the pool, and the video file is left as it
  was: none is written.
\<close>

theorem render_failure_aborts:
  assumes "completion_order (length (trajectory g)) order"
    and "np_array (trajectory g) \<noteq> Inl ValueError"
    and "k < length (trajectory g)"
    and "trajectory g ! k = [] \<or> render_fails env k"
  shows "\<exists>e. fst (main env wo order g fs0) = Some e \<and>
             (e = IndexError \<or> e = RenderError) \<and>
             movie (snd (main env wo order g fs0)) = movie fs0"
proof -
  from assms(2) np_array_cases [of "trajectory g"] have np: "np_array (trajectory g) = Inr (trajectory g)"
    by auto
  obtain es where sc: "scratch (os_makedirs temp_dir fs0) = Some es"
    using os_makedirs_scratch [of fs0] by blast
  define rs where "rs = render_stage env wo order g (trajectory g) (os_makedirs temp_dir fs0)"
  have "\<not> task_ok env (frame_args (trajectory g) ! k)"
    using assms(3,4) by (auto simp: task_ok_def)
  then have "isl (task_result env (frame_args (trajectory g) ! k))"
    using task_result_fail [of env "frame_args (trajectory g) ! k"] by auto
  moreover have "task_result env (frame_args (trajectory g) ! k) \<in> set (map (task_result env) (frame_args (trajectory g)))"
  proof -
    have "frame_args (trajectory g) ! k \<in> set (frame_args (trajectory g))"
      using assms(3) by (intro nth_mem) simp
    then show ?thesis by simp
  qed
  ultimately obtain e where e: "py_list (map (task_result env) (frame_args (trajectory g))) = Inl e"
    using py_list_some_error by blast
  then have f: "fst rs = Inl e"
    unfolding rs_def render_stage_eq [OF sc assms(1)] by simp
  have er: "e = IndexError \<or> e = RenderError"
    using render_stage_error [OF sc assms(1)] f unfolding rs_def by blast
  have mv: "movie (snd rs) = movie fs0"
    unfolding rs_def using render_stage_movie [OF sc assms(1)] by simp
  have "main env wo order g fs0 = (Some e, snd rs)"
    using f by (cases rs) (simp add: main_def np Let_def rs_def [symmetric])
  with er mv show ?thesis by simp
qed

theorem render_failure_aborts_witness:
  "completion_order (length (trajectory example_data)) [1, 0] \<and>
   render_fails failing_env 1 \<and>
   fst (main failing_env (\<lambda>k. k mod 2) [1, 0] example_data empty_fs) = Some RenderError \<and>
   movie (snd (main failing_env (\<lambda>k. k mod 2) [1, 0] example_data empty_fs)) = movie empty_fs"
proof -
  have t: "trajectory example_data = [[(1, 1, 1), (2, 2, 2)], [(3, 3, 3), (4, 4, 4)]]"
    by (simp add: example_data_def)
  have a: "completion_order (length (trajectory example_data)) [1, 0]"
    by (simp add: t completion_order_def upt_rec)
  have b: "np_array (trajectory example_data) \<noteq> Inl ValueError"
    by (simp add: t np_array_def)
  have c: "(1::nat) < length (trajectory example_data)" by (simp add: t)
  have d: "render_fails failing_env 1" by (simp add: failing_env_def)
  then have d': "trajectory example_data ! 1 = [] \<or> render_fails failing_env 1" by simp
  have e: "fst (main failing_env (\<lambda>k. k mod 2) [1, 0] example_data empty_fs) = Some RenderError"
    by code_simp
  from render_failure_aborts [OF a b c d', of "\<lambda>k. k mod 2" empty_fs] a d e
  show ?thesis by auto
qed

section \<open>Failure of the assembly\<close>

text \<open>
  Claim C7. If the run ends with the encoding error of the video assembly, cleanup has
  not run: the file system is the one the rendering stage left, every frame file of
  the run can still be read from the scratch directory, and no video was written.
\<close>

theorem encoding_error_keeps_frames:
  assumes "completion_order (length (trajectory g)) order"
    and "fst (main env wo order g fs0) = Some EncodingError"
  shows "snd (main env wo order g fs0) =
           snd (render_stage env wo order g (trajectory g) (os_makedirs temp_dir fs0)) \<and>
         movie (snd (main env wo order g fs0)) = movie fs0 \<and>
         (\<forall>i<length (trajectory g).
            imread (frame_path_of i) (snd (main env wo order g fs0)) =
              Inr (frame_png g (figsize env) (i, trajectory g ! i)))"
proof -
  have np: "np_array (trajectory g) = Inr (trajectory g)"
    using np_array_cases [of "trajectory g"] assms(2) by (auto simp: main_def)
  obtain es where sc: "scratch (os_makedirs temp_dir fs0) = Some es"
    using os_makedirs_scratch [of fs0] by blast
  define fs1 where "fs1 = os_makedirs temp_dir fs0"
  define rs where "rs = render_stage env wo order g (trajectory g) fs1"
  have rse: "rs =
     (py_list (map (task_result env) (frame_args (trajectory g))),
      fs1\<lparr>scratch := Some (fold (\<lambda>k. write_frame g (figsize env) (frame_args (trajectory g) ! k))
               (filter (\<lambda>k. task_ok env (frame_args (trajectory g) ! k)) order) es)\<rparr>)"
    unfolding rs_def fs1_def by (rule render_stage_eq [OF sc assms(1)])
  obtain paths where ok: "fst rs = Inr paths"
  proof (cases "fst rs")
    case (Inl e)
    then have "main env wo order g fs0 = (Some e, snd rs)"
      by (cases rs) (simp add: main_def np Let_def rs_def fs1_def)
    moreover have "e = IndexError \<or> e = RenderError"
      using render_stage_error [OF sc assms(1), of env wo g e] Inl by (simp add: rs_def fs1_def)
    ultimately show ?thesis using assms(2) by auto
  next
    case (Inr paths)
    then show ?thesis by (rule that)
  qed
  have rsv: "render_stage env wo order g (trajectory g) (os_makedirs temp_dir fs0) = (Inr paths, snd rs)"
    using ok by (intro prod_eqI) (simp_all add: rs_def fs1_def)
  have m: "main env wo order g fs0 =
      (case ImageSequenceClip_dir temp_dir 10 (snd rs) of
         Inl e \<Rightarrow> (Some e, snd rs)
       | Inr clip \<Rightarrow> cleanup (write_videofile clip (snd rs)))"
    by (simp add: main_def np Let_def rsv)
  have keep: "snd (main env wo order g fs0) = snd rs"
  proof (cases "ImageSequenceClip_dir temp_dir 10 (snd rs)")
    case (Inl e)
    then show ?thesis by (simp add: m)
  next
    case (Inr clip)
    then have "fst (cleanup (write_videofile clip (snd rs))) = Some EncodingError"
      using assms(2) by (simp add: m)
    from cleanup_error [OF this] show ?thesis by simp
  qed
  have allok: "task_ok env (frame_args (trajectory g) ! i)" if "i < length (trajectory g)" for i
  proof -
    have "frame_args (trajectory g) ! i \<in> set (frame_args (trajectory g))"
      using that by (intro nth_mem) simp
    moreover have "py_list (map (task_result env) (frame_args (trajectory g))) = Inr paths"
      using ok rse by simp
    ultimately have "\<not> isl (task_result env (frame_args (trajectory g) ! i))"
      by (rule py_list_Inr_all [rotated])
    then show ?thesis
      using task_result_fail [of env "frame_args (trajectory g) ! i"]
      by (cases "task_ok env (frame_args (trajectory g) ! i)") auto
  qed
  have flt: "filter (\<lambda>k. task_ok env (frame_args (trajectory g) ! k)) order = order"
    using completion_order_set [OF assms(1)] allok by (auto simp: filter_id_conv)
  have rd: "imread (frame_path_of i) (snd rs) = Inr (frame_png g (figsize env) (i, trajectory g ! i))"
    if "i < length (trajectory g)" for i
    unfolding rse flt snd_conv
    by (rule imread_written) (use that completion_order_set [OF assms(1)] in auto)
  have mv: "movie (snd rs) = movie fs0"
    using render_stage_movie [OF sc assms(1), of env wo g] by (simp add: rs_def fs1_def)
  show ?thesis
    unfolding keep using rd mv by (simp add: rs_def fs1_def)
qed

theorem encoding_error_keeps_frames_witness:
  "completion_order (length (trajectory example_data)) [1, 0] \<and>
   fst (main example_env (\<lambda>k. k mod 2) [1, 0] example_data stale_fs) = Some EncodingError \<and>
   movie (snd (main example_env (\<lambda>k. k mod 2) [1, 0] example_data stale_fs)) = movie stale_fs \<and>
   imread (frame_path_of 1) (snd (main example_env (\<lambda>k. k mod 2) [1, 0] example_data stale_fs)) =
     Inr (frame_png example_data (640, 480) (1, [(3, 3, 3), (4, 4, 4)]))"
proof -
  have e: "fst (main example_env (\<lambda>k. k mod 2) [1, 0] example_data stale_fs) = Some EncodingError"
    by code_simp
  note t = encoding_error_keeps_frames [OF example_completion e]
  have "(1::nat) < length (trajectory example_data)" by (simp add: example_data_def)
  with t have "imread (frame_path_of 1) (snd (main example_env (\<lambda>k. k mod 2) [1, 0] example_data stale_fs)) =
     Inr (frame_png example_data (figsize example_env) (1, trajectory example_data ! 1))"
    by blast
  moreover have "figsize example_env = (640, 480)" "trajectory example_data ! 1 = [(3, 3, 3), (4, 4, 4)]"
    by (simp_all add: example_env_def example_data_def)
  ultimately show ?thesis using t e example_completion by auto
qed


section \<open>Frame titles\<close>

text \<open>
  Claim C8. The frame rendered for snapshot \<open>i\<close> is titled with the simulated time
  \<open>i * snapshot_interval\<close> (as \<^verbatim>\<open>Timestep\<close> and the decimal number), in the parallel
  variant (the file \<^verbatim>\<open>process_frame\<close> saves) and in the sequential variant (entry
  \<open>i\<close> of the frame list) alike, for every \<open>i\<close>.
\<close>

theorem frame_title_is_index_times_interval:
  "(process_frame env g (i, positions) fig fs = (Inr path, fig', fs') \<longrightarrow>
      path = frame_path_of i \<and>
      (\<exists>im. imread path fs' = Inr im \<and>
            ax_title (fig_axes (img_picture im)) =
              ''Timestep '' @ str_int (int i * snapshot_interval g))) \<and>
   (video_frames env g traj = Inr frames \<longrightarrow>
      length frames = length traj \<and>
      (\<forall>i<length traj.
         ax_title (fig_axes (img_picture (frames ! i))) =
           ''Timestep '' @ str_int (int i * snapshot_interval g)))"
proof -
  have A: "path = frame_path_of i \<and>
      (\<exists>im. imread path fs' = Inr im \<and>
            ax_title (fig_axes (img_picture im)) =
              ''Timestep '' @ str_int (int i * snapshot_interval g))"
    if pf: "process_frame env g (i, positions) fig fs = (Inr path, fig', fs')"
  proof (cases "scratch fs")
    case None
    with pf show ?thesis
      by (auto simp: process_frame_def Let_def plt_savefig_def split: if_splits)
  next
    case (Some es)
    from process_frame_fst [of fs env g "(i, positions)" fig] Some pf
    have r: "task_result env (i, positions) = Inr path" by simp
    then have ok: "task_ok env (i, positions)" and p: "path = frame_path_of i"
      by (auto simp: task_result_def task_ok_def split: if_splits)
    from process_frame_disk [OF Some, of env g "(i, positions)" fig] pf ok
    have "fs' = fs\<lparr>scratch := Some (write_frame g (fig_size fig) (i, positions) es)\<rparr>" by simp
    then have "imread path fs' = Inr (frame_png g (fig_size fig) (i, positions))"
      by (simp add: imread_def p frame_path_of_def write_frame_def update_conv')
    with p show ?thesis by (simp add: frame_png_title)
  qed
  have B: "length frames = length traj \<and>
      (\<forall>i<length traj.
         ax_title (fig_axes (img_picture (frames ! i))) =
           ''Timestep '' @ str_int (int i * snapshot_interval g))"
    if "video_frames env g traj = Inr frames"
    unfolding video_frames_Inr [OF that]
    by (simp add: nth_enumerate_eq canvas_rgb_def loop_figure_def)
  from A B show ?thesis by blast
qed

theorem frame_title_is_index_times_interval_witness:
  "\<exists>fig' fs' im frames.
     process_frame example_env example_data (1, [(3, 3, 3), (4, 4, 4)]) (plt_figure example_env)
       (os_makedirs temp_dir empty_fs) = (Inr (frame_path_of 1), fig', fs') \<and>
     imread (frame_path_of 1) fs' = Inr im \<and>
     ax_title (fig_axes (img_picture im)) = ''Timestep 10'' \<and>
     video_frames example_env example_data (trajectory example_data) = Inr frames \<and>
     length frames = 2 \<and>
     ax_title (fig_axes (img_picture (frames ! 1))) = ''Timestep 10''"
proof -
  define r where "r = process_frame example_env example_data (1, [(3, 3, 3), (4, 4, 4)])
      (plt_figure example_env) (os_makedirs temp_dir empty_fs)"
  have sc: "scratch (os_makedirs temp_dir empty_fs) = Some []"
    by (simp add: os_makedirs_def empty_fs_def)
  have "fst r = Inr (frame_path_of 1)"
    unfolding r_def
    by (simp add: process_frame_fst sc task_result_def example_env_def)
  then have pf: "process_frame example_env example_data (1, [(3, 3, 3), (4, 4, 4)])
      (plt_figure example_env) (os_makedirs temp_dir empty_fs) =
      (Inr (frame_path_of 1), fst (snd r), snd (snd r))"
    unfolding r_def by (intro prod_eqI) simp_all
  define frames where "frames = projr (video_frames example_env example_data (trajectory example_data))"
  have vf: "video_frames example_env example_data (trajectory example_data) = Inr frames"
    unfolding frames_def by code_simp
  note t = frame_title_is_index_times_interval [of example_env example_data 1 "[(3, 3, 3), (4, 4, 4)]"
      "plt_figure example_env" "os_makedirs temp_dir empty_fs" "frame_path_of 1" "fst (snd r)" "snd (snd r)"
      "trajectory example_data" frames]
  have si: "snapshot_interval example_data = 10" "length (trajectory example_data) = 2"
    by (simp_all add: example_data_def)
  from t pf obtain im where im: "imread (frame_path_of 1) (snd (snd r)) = Inr im"
    "ax_title (fig_axes (img_picture im)) = ''Timestep '' @ str_int (int 1 * snapshot_interval example_data)"
    by blast
  from t vf have len: "length frames = length (trajectory example_data)"
    and all: "\<forall>i<length (trajectory example_data).
         ax_title (fig_axes (img_picture (frames ! i))) =
           ''Timestep '' @ str_int (int i * snapshot_interval example_data)"
    by blast+
  have "(1::nat) < length (trajectory example_data)" by (simp add: si)
  with all have f1: "ax_title (fig_axes (img_picture (frames ! 1))) =
           ''Timestep '' @ str_int (int 1 * snapshot_interval example_data)"
    by blast
  have ti: "''Timestep '' @ str_int (int 1 * snapshot_interval example_data) = ''Timestep 10''"
    unfolding si str_int_10 by simp
  have im2: "ax_title (fig_axes (img_picture im)) = ''Timestep 10''"
    using im(2) unfolding ti .
  have f2: "ax_title (fig_axes (img_picture (frames ! 1))) = ''Timestep 10''"
    using f1 unfolding ti .
  have len2: "length frames = 2" using len si by simp
  from pf im(1) im2 vf len2 f2 show ?thesis by blast
qed


section \<open>Frame sizes in the sequential variant\<close>

text \<open>
  Claim C10. In the sequential in-memory variant every frame appended to the frame list
  has the same height and width, those of the one figure canvas, so the size check of
  the assembly cannot fail: the run never ends with the encoding error.
\<close>

theorem video_frames_one_size:
  "(video_frames env g traj = Inr frames \<longrightarrow>
      list_all (\<lambda>im. img_shape im = (snd (figsize env), fst (figsize env), 3)) frames \<and>
      ImageSequenceClip_list frames 10 \<noteq> Inl EncodingError) \<and>
   fst (video_main env g fs0) \<noteq> Some EncodingError"
proof -
  have shapes: "list_all (\<lambda>im. img_shape im = (snd (figsize env), fst (figsize env), 3)) fr"
    if "video_frames env g t = Inr fr" for t fr
    unfolding video_frames_Inr [OF that]
    by (auto simp: list_all_iff canvas_rgb_def loop_figure_def)
  have noenc: "ImageSequenceClip_list fr 10 \<noteq> Inl EncodingError"
    if "video_frames env g t = Inr fr" for t fr
    unfolding ImageSequenceClip_list_def using shapes [OF that] by (rule clip_of_same_shape)
  have "fst (video_main env g fs0) \<noteq> Some EncodingError"
    using noenc
    by (auto simp: video_main_def np_array_def video_frames_def
        split: sum.splits if_splits dest: render_loop_Inl)
  with shapes noenc show ?thesis by blast
qed

theorem video_frames_one_size_witness:
  "\<exists>frames. video_frames example_env example_data (trajectory example_data) = Inr frames \<and>
     length frames = 2 \<and>
     list_all (\<lambda>im. img_shape im = (480, 640, 3)) frames \<and>
     ImageSequenceClip_list frames 10 \<noteq> Inl EncodingError"
proof -
  define frames where "frames = projr (video_frames example_env example_data (trajectory example_data))"
  have ok: "video_frames example_env example_data (trajectory example_data) = Inr frames"
    unfolding frames_def by code_simp
  have len: "length frames = 2"
    unfolding frames_def by code_simp
  have sz: "figsize example_env = (640, 480)" by (simp add: example_env_def)
  from video_frames_one_size [of example_env example_data "trajectory example_data" frames] ok len sz
  show ?thesis by auto
qed

end
